theory Spec2Isabelle
  imports Complex_Main "HOL-Library.Multiset" "HOL-Library.List_Lexorder" "HOL-Library.Char_ord"
    "HOL-Library.Sublist" "HOL-Library.AList" "HOL-Library.Product_Lexorder"
begin

section \<open>Python values\<close>

text \<open>
  The pipeline passes untyped values (the LLM's structured result, cache key payloads,
  audit payloads) between its stages. They are modelled by one datatype. A float is
  represented by the rational number it denotes (NaN and the infinities are not
  represented, and the rounding of float arithmetic is not modelled); a set carries its
  elements in iteration order; a mapping is an association list in insertion order whose
  keys are strings, looked up with \<open>map_of\<close>. A dataclass instance read through
  \<open>getattr\<close> is represented by the mapping of its attributes.
\<close>

datatype pyval =
    PNone
  | PBool bool
  | PInt int
  | PFloat rat
  | PStr string
  | PList "pyval list"
  | PTuple "pyval list"
  | PSet "pyval list"
  | PDict "(string \<times> pyval) list"

text \<open>Built-ins of the host language that the repository calls but does not define:
  \<open>str(v)\<close> and \<open>float(s)\<close> on a string (\<open>None\<close> when it raises
  \<open>ValueError\<close> or yields NaN or an infinity).\<close>

record builtins =
  py_str :: "pyval \<Rightarrow> string"
  py_float_of_str :: "string \<Rightarrow> rat option"

text \<open>\<open>str(v)\<close>: the identity on a string, the built-in otherwise.\<close>

fun to_str :: "builtins \<Rightarrow> pyval \<Rightarrow> string" where
  "to_str B (PStr s) = s"
| "to_str B v = py_str B v"

text \<open>\<open>str.isspace\<close> on the code points below 256, and \<open>str.strip()\<close>.\<close>

definition py_isspace :: "char \<Rightarrow> bool" where
  "py_isspace c = (of_char c \<in> {9, 10, 11, 12, 13, 28, 29, 30, 31, 32, 133, 160 :: nat})"

definition strip :: "string \<Rightarrow> string" where
  "strip s = rev (dropWhile py_isspace (rev (dropWhile py_isspace s)))"

text \<open>Truthiness, as \<open>bool(v)\<close> and \<open>if v\<close> compute it.\<close>

fun truthy :: "pyval \<Rightarrow> bool" where
  "truthy PNone = False"
| "truthy (PBool b) = b"
| "truthy (PInt i) = (i \<noteq> 0)"
| "truthy (PFloat r) = (r \<noteq> 0)"
| "truthy (PStr s) = (s \<noteq> [])"
| "truthy (PList xs) = (xs \<noteq> [])"
| "truthy (PTuple xs) = (xs \<noteq> [])"
| "truthy (PSet xs) = (xs \<noteq> [])"
| "truthy (PDict kvs) = (kvs \<noteq> [])"

text \<open>\<open>isinstance(v, int)\<close> holds for integers and for booleans (\<open>True == 1\<close>,
  \<open>False == 0\<close>); \<open>as_int\<close> gives the integer such a value equals.\<close>

fun as_int :: "pyval \<Rightarrow> int option" where
  "as_int (PInt i) = Some i"
| "as_int (PBool b) = Some (if b then 1 else 0)"
| "as_int _ = None"

fun nonblank_str :: "pyval \<Rightarrow> bool" where
  "nonblank_str (PStr s) = (strip s \<noteq> [])"
| "nonblank_str _ = False"

text \<open>\<open>_read(source, key, default)\<close>: \<open>Mapping.get\<close> or \<open>getattr\<close>.\<close>

fun read :: "pyval \<Rightarrow> string \<Rightarrow> pyval \<Rightarrow> pyval" where
  "read (PDict kvs) key d = (case map_of kvs key of Some v \<Rightarrow> v | None \<Rightarrow> d)"
| "read _ key d = d"

fun as_dict :: "pyval \<Rightarrow> (string \<times> pyval) list" where
  "as_dict (PDict kvs) = kvs"
| "as_dict _ = []"

fun digit_char :: "nat \<Rightarrow> char" where
  "digit_char n = char_of (48 + n mod 10)"

fun string_of_nat :: "nat \<Rightarrow> string" where
  "string_of_nat n = (if n < 10 then [digit_char n] else string_of_nat (n div 10) @ [digit_char n])"

declare string_of_nat.simps [simp del]

section \<open>Contracts\<close>

text \<open>The dataclasses of \<open>contracts.py\<close>. The \<open>metadata\<close> and \<open>version\<close>
  fields, which no property below reads, are left out, as are the fields of
  \<open>CandidateItem\<close> that the merge stage never reads.\<close>

record RawLine =
  rl_line_index :: int
  rl_raw_line :: string
  rl_name_raw :: string
  rl_qty :: int
  rl_note_raw :: "string option"
  rl_needs_review :: bool

record Mod =
  mod_raw :: string
  mod_name :: pyval
  mod_value :: pyval
  confidence :: "rat option"
  mod_needs_review :: bool

record CandidateItem =
  ci_line_index :: int
  candidate_name :: string
  candidate_code :: "string option"

record AuditEvent =
  event_type :: string
  message :: string
  ev_line_index :: "int option"
  ev_item_index :: "int option"
  ev_metadata :: "(string \<times> pyval) list"

record OrderRawParsed =
  or_source_text :: string
  or_lines :: "RawLine list"
  or_order_id :: "string option"
  or_needs_review :: bool

record NormalizedItem =
  ni_line_index :: int
  ni_raw_line :: string
  ni_name_raw :: string
  ni_qty :: int
  name_normalized :: string
  item_code :: "string option"
  ni_note_raw :: "string option"
  mods :: "Mod list"
  ni_group_id :: pyval
  confidence_item :: "rat option"
  confidence_mods :: "rat option"
  ni_needs_review :: bool

record GroupResult =
  group_id :: string
  group_type :: string
  label :: string
  line_indices :: "int list"
  confidence_group :: "rat option"
  gr_needs_review :: bool

record OrderNormalized =
  on_source_text :: string
  items :: "NormalizedItem list"
  groups :: "GroupResult list"
  on_order_id :: "string option"
  on_lines :: "RawLine list"
  audit_events :: "AuditEvent list"
  overall_needs_review :: bool
  order_confidence :: "rat option"

text \<open>The catalog argument: absent, a mapping from item id to payload, or a sequence
  of entries. A dictionary of candidates per line index is an association list.\<close>

datatype menu_catalog = CatNone | CatMap "(string \<times> pyval) list" | CatSeq "pyval list"

type_synonym CandidatesByLine = "(int \<times> CandidateItem list) list"

section \<open>merge\_validate.py\<close>

definition DEFAULT_THRESHOLD :: rat where
  "DEFAULT_THRESHOLD = 85 / 100"

definition VALID_GROUP_TYPES :: "string set" where
  "VALID_GROUP_TYPES = {''pack_together'', ''separate'', ''other''}"

definition audit :: "string \<Rightarrow> string \<Rightarrow> int option \<Rightarrow> (string \<times> pyval) list \<Rightarrow> AuditEvent" where
  "audit et msg li md =
     \<lparr>event_type = et, message = msg, ev_line_index = li, ev_item_index = None, ev_metadata = md\<rparr>"

definition copy_audit_event :: "pyval \<Rightarrow> AuditEvent" where
  "copy_audit_event raw =
     (let et = read raw ''event_type'' (PStr '''');
          msg = read raw ''message'' (PStr '''') in
      \<lparr>event_type = (case et of PStr s \<Rightarrow> if strip s \<noteq> [] then s else ''merge_validate_info''
                        | _ \<Rightarrow> ''merge_validate_info''),
       message = (case msg of PStr s \<Rightarrow> if strip s \<noteq> [] then s else ''merge_validate_event''
                        | _ \<Rightarrow> ''merge_validate_event''),
       ev_line_index = as_int (read raw ''line_index'' PNone),
       ev_item_index = as_int (read raw ''item_index'' PNone),
       ev_metadata = as_dict (read raw ''metadata'' (PDict []))\<rparr>)"

fun copy_audit_events :: "pyval \<Rightarrow> AuditEvent list" where
  "copy_audit_events (PList raws) = map copy_audit_event raws"
| "copy_audit_events _ = []"

definition normalize_threshold :: "rat option \<Rightarrow> rat" where
  "normalize_threshold v =
     (case v of
        None \<Rightarrow> DEFAULT_THRESHOLD
      | Some parsed \<Rightarrow> if parsed < 0 then 0 else if parsed > 1 then 1 else parsed)"

text \<open>\<open>float(value)\<close> inside \<open>try\<close>: \<open>None\<close> stands for the caught
  \<open>TypeError\<close> or \<open>ValueError\<close>.\<close>

fun py_float :: "builtins \<Rightarrow> pyval \<Rightarrow> rat option" where
  "py_float B (PBool b) = Some (if b then 1 else 0)"
| "py_float B (PInt i) = Some (of_int i)"
| "py_float B (PFloat r) = Some r"
| "py_float B (PStr s) = py_float_of_str B s"
| "py_float B _ = None"

definition normalize_confidence :: "builtins \<Rightarrow> pyval \<Rightarrow> rat option" where
  "normalize_confidence B v =
     (if v = PNone then None
      else case py_float B v of
        None \<Rightarrow> None
      | Some parsed \<Rightarrow>
          if parsed < 0 then None
          else if parsed \<le> 1 then Some parsed
          else if parsed \<le> 100 then Some (parsed / 100)
          else None)"

fun catalog_seq_ids :: "builtins \<Rightarrow> pyval list \<Rightarrow> string set" where
  "catalog_seq_ids B [] = {}"
| "catalog_seq_ids B (PDict kvs # rest) =
     (let raw0 = (case map_of kvs ''item_id'' of Some v \<Rightarrow> v | None \<Rightarrow> PNone);
          raw_item_id = (if raw0 = PNone
                         then (case map_of kvs ''item_code'' of Some v \<Rightarrow> v | None \<Rightarrow> PNone)
                         else raw0) in
      if raw_item_id = PNone then catalog_seq_ids B rest
      else let item_id = strip (to_str B raw_item_id) in
        if item_id \<noteq> [] then insert item_id (catalog_seq_ids B rest)
        else catalog_seq_ids B rest)"
| "catalog_seq_ids B (_ # rest) = catalog_seq_ids B rest"

definition candidate_ids :: "CandidatesByLine \<Rightarrow> string set" where
  "candidate_ids candidates =
     set (concat (map (\<lambda>line_candidates.
            List.map_filter (\<lambda>candidate.
               case candidate_code candidate of
                 Some code \<Rightarrow> if code \<noteq> [] then Some code else None
               | None \<Rightarrow> None) line_candidates)
          (map snd candidates)))"

fun catalog_ids :: "builtins \<Rightarrow> menu_catalog \<Rightarrow> CandidatesByLine \<Rightarrow> string set" where
  "catalog_ids B (CatMap kvs) candidates =
     set (filter (\<lambda>item_id. item_id \<noteq> []) (map (\<lambda>item_id. strip item_id) (map fst kvs)))"
| "catalog_ids B (CatSeq entries) candidates =
     (let ids = catalog_seq_ids B entries in
      if ids \<noteq> {} then ids else candidate_ids candidates)"
| "catalog_ids B CatNone candidates = candidate_ids candidates"

fun find_candidate_by_code :: "CandidateItem list \<Rightarrow> string option \<Rightarrow> CandidateItem option" where
  "find_candidate_by_code line_candidates None = None"
| "find_candidate_by_code line_candidates (Some code) =
     (if code = [] then None
      else List.find (\<lambda>candidate. candidate_code candidate = Some code) line_candidates)"

text \<open>\<open>_normalize_mod\<close>.\<close>

definition mod_token :: "pyval \<Rightarrow> pyval" where
  "mod_token raw_mod =
     (let t1 = read raw_mod ''mod_raw'' PNone;
          t2 = (if \<not> nonblank_str t1 then read raw_mod ''mod_name'' PNone else t1);
          t3 = (if \<not> nonblank_str t2 then read raw_mod ''mod_value'' PNone else t2)
      in t3)"

definition normalize_mod :: "builtins \<Rightarrow> pyval \<Rightarrow> rat option \<Rightarrow> Mod option" where
  "normalize_mod B raw_mod default_confidence =
     (case raw_mod of
        PStr s \<Rightarrow>
          (let token = strip s in
           if token = [] then None
           else Some \<lparr>mod_raw = token, mod_name = PStr token, mod_value = PNone,
                       confidence = default_confidence, mod_needs_review = False\<rparr>)
      | _ \<Rightarrow>
          (case mod_token raw_mod of
             PStr token \<Rightarrow>
               if strip token = [] then None
               else
                 (let c0 = normalize_confidence B (read raw_mod ''confidence'' PNone);
                      c = (if c0 = None then default_confidence else c0)
                  in Some \<lparr>mod_raw = strip token,
                            mod_name = read raw_mod ''mod_name'' PNone,
                            mod_value = read raw_mod ''mod_value'' PNone,
                            confidence = c,
                            mod_needs_review = truthy (read raw_mod ''needs_review'' (PBool False))\<rparr>)
           | _ \<Rightarrow> None))"

text \<open>\<open>_collect_llm_items\<close>: the first LLM item of each parser line index; the
  state is the dictionary built so far and the audit events.\<close>

fun collect_loop :: "int set \<Rightarrow> pyval list \<Rightarrow> (int \<rightharpoonup> pyval) \<times> AuditEvent list
    \<Rightarrow> (int \<rightharpoonup> pyval) \<times> AuditEvent list" where
  "collect_loop valid_line_indices [] st = st"
| "collect_loop valid_line_indices (raw # rest) (by_line, evs) =
     (let line_index = read raw ''line_index'' PNone in
      case as_int line_index of
        None \<Rightarrow>
          collect_loop valid_line_indices rest
            (by_line, evs @ [audit ''item_invalid_line_index''
                ''LLM item line_index not found in parser lines'' None []])
      | Some i \<Rightarrow>
          if i \<notin> valid_line_indices then
            collect_loop valid_line_indices rest
              (by_line, evs @ [audit ''item_invalid_line_index''
                  ''LLM item line_index not found in parser lines'' (Some i) []])
          else if by_line i \<noteq> None then
            collect_loop valid_line_indices rest
              (by_line, evs @ [audit ''item_duplicate_line_index''
                  ''Duplicate LLM item for the same line_index; first one is kept'' (Some i) []])
          else collect_loop valid_line_indices rest (by_line(i \<mapsto> raw), evs))"

fun collect_llm_items :: "pyval \<Rightarrow> int set \<Rightarrow> AuditEvent list
    \<Rightarrow> (int \<rightharpoonup> pyval) \<times> AuditEvent list" where
  "collect_llm_items (PList raw_items) valid_line_indices evs =
     collect_loop valid_line_indices raw_items (Map.empty, evs)"
| "collect_llm_items _ valid_line_indices evs = (Map.empty, evs)"

text \<open>\<open>_merge_one_item\<close>, in the order of its source: quantity, confidences, item
  code, name, modifiers, the missing-item flag. Each part returns the value it computes,
  whether it raised \<open>needs_review\<close>, and the audit events it appended.\<close>

definition merge_qty :: "RawLine \<Rightarrow> pyval \<Rightarrow> int \<times> bool \<times> AuditEvent list" where
  "merge_qty line llm_item =
     (let (qty, nr, evs) =
        (if llm_item \<noteq> PNone then
           (case read llm_item ''qty'' PNone of
              PInt llm_qty \<Rightarrow>
                if llm_qty > 0 then (llm_qty, False, [])
                else (rl_qty line, True,
                      [audit ''qty_invalid'' ''LLM qty must be positive integer; raw qty is kept''
                         (Some (rl_line_index line)) [(''qty'', PInt llm_qty)]])
            | PNone \<Rightarrow> (rl_qty line, False, [])
            | llm_qty \<Rightarrow>
                (rl_qty line, True,
                 [audit ''qty_invalid'' ''LLM qty is not an integer; raw qty is kept''
                    (Some (rl_line_index line)) [(''qty'', llm_qty)]]))
         else (rl_qty line, False, []))
      in if qty \<le> 0 then
           (qty, True,
            evs @ [audit ''qty_invalid'' ''Final qty must be positive integer''
                     (Some (rl_line_index line)) [(''qty'', PInt qty)]])
         else (qty, nr, evs))"

definition read_llm :: "pyval \<Rightarrow> string \<Rightarrow> pyval" where
  "read_llm llm_item key = (if llm_item \<noteq> PNone then read llm_item key PNone else PNone)"

definition llm_item_code :: "pyval \<Rightarrow> string option" where
  "llm_item_code llm_item =
     (let r1 = read_llm llm_item ''item_code'';
          item_code_raw = (if \<not> nonblank_str r1 then read_llm llm_item ''item_id'' else r1)
      in case item_code_raw of
           PStr s \<Rightarrow> if strip s \<noteq> [] then Some (strip s) else None
         | _ \<Rightarrow> None)"

definition resolve_item_code :: "RawLine \<Rightarrow> pyval \<Rightarrow> CandidateItem list \<Rightarrow> string set
    \<Rightarrow> string option \<times> CandidateItem option \<times> bool \<times> string option \<times> AuditEvent list" where
  "resolve_item_code line llm_item line_candidates valid_catalog_ids =
     (let primary_candidate = (case line_candidates of [] \<Rightarrow> None | c # _ \<Rightarrow> Some c);
          item_code0 = llm_item_code llm_item;
          item_code_is_valid = (case item_code0 of Some c \<Rightarrow> c \<in> valid_catalog_ids | None \<Rightarrow> False);
          (item_code1, nr1, evs1) =
            (if item_code0 \<noteq> None \<and> \<not> item_code_is_valid then
               (None, True,
                [audit ''item_code_not_in_catalog''
                   ''LLM item_code not found in menu_catalog; fallback is applied''
                   (Some (rl_line_index line)) [(''item_code'', PStr (the item_code0))]])
             else (item_code0, False, []));
          selected0 = (case item_code1 of
                         Some c \<Rightarrow> if c \<noteq> [] then find_candidate_by_code line_candidates item_code1 else None
                       | None \<Rightarrow> None);
          (item_code2, nr2, fr2, evs2) =
            (if item_code1 \<noteq> None \<and> selected0 = None then
               (None, True, Some ''item_code_not_in_line_candidates'',
                evs1 @ [audit ''item_code_not_in_line_candidates''
                   ''LLM item_code is not in this line's candidates; fallback is applied when possible''
                   (Some (rl_line_index line)) [(''item_code'', PStr (the item_code1))]])
             else (item_code1, nr1, None, evs1))
      in case (item_code2, primary_candidate) of
           (None, Some primary) \<Rightarrow>
             (case candidate_code primary of
                Some code \<Rightarrow>
                  if code \<noteq> [] \<and> code \<in> valid_catalog_ids then
                    (Some code, Some primary, True,
                     (case fr2 of None \<Rightarrow> Some ''candidate_fallback'' | Some r \<Rightarrow> Some r),
                     evs2 @ [audit ''item_fallback_to_candidate''
                        ''LLM item_code missing/invalid; using top candidate''
                        (Some (rl_line_index line)) [(''item_code'', PStr code)]])
                  else (item_code2, selected0, nr2, fr2, evs2)
              | None \<Rightarrow> (item_code2, selected0, nr2, fr2, evs2))
         | _ \<Rightarrow> (item_code2, selected0, nr2, fr2, evs2))"

definition resolve_name :: "RawLine \<Rightarrow> pyval \<Rightarrow> CandidateItem option \<Rightarrow> string \<times> bool" where
  "resolve_name line llm_item selected_candidate =
     (let name_normalized_raw = read_llm llm_item ''name_normalized'' in
      case (if nonblank_str name_normalized_raw then name_normalized_raw else PNone) of
        PStr s \<Rightarrow> (s, False)
      | _ \<Rightarrow>
         (case selected_candidate of
            Some c \<Rightarrow> (candidate_name c, llm_item \<noteq> PNone)
          | None \<Rightarrow> (rl_name_raw line, True)))"

fun merge_mods :: "builtins \<Rightarrow> rat option \<Rightarrow> rat \<Rightarrow> pyval list \<Rightarrow> Mod list \<times> bool" where
  "merge_mods B default_confidence mods_threshold [] = ([], False)"
| "merge_mods B default_confidence mods_threshold (raw_mod # rest) =
     (let (ms, nr) = merge_mods B default_confidence mods_threshold rest in
      case normalize_mod B raw_mod default_confidence of
        None \<Rightarrow> (ms, True)
      | Some normalized_mod \<Rightarrow>
          (let mod_conf = confidence normalized_mod;
               mod_conf_low = (case mod_conf of None \<Rightarrow> True | Some c \<Rightarrow> c < mods_threshold)
           in (normalized_mod\<lparr>mod_needs_review := mod_needs_review normalized_mod \<or> mod_conf_low\<rparr> # ms,
               nr)))"

definition resolve_mods :: "builtins \<Rightarrow> RawLine \<Rightarrow> pyval \<Rightarrow> rat option \<Rightarrow> rat
    \<Rightarrow> Mod list \<times> bool \<times> AuditEvent list" where
  "resolve_mods B line llm_item default_confidence mods_threshold =
     (let raw_mods = (if llm_item \<noteq> PNone then read llm_item ''mods'' (PList []) else PList []) in
      case raw_mods of
        PList rs \<Rightarrow> (let (ms, nr) = merge_mods B default_confidence mods_threshold rs in (ms, nr, []))
      | _ \<Rightarrow> ([], True,
              [audit ''mods_invalid_shape'' ''LLM mods must be a list'' (Some (rl_line_index line)) []]))"

definition below :: "rat option \<Rightarrow> rat \<Rightarrow> bool" where
  "below c threshold = (case c of None \<Rightarrow> True | Some v \<Rightarrow> v < threshold)"

definition merge_one_item :: "builtins \<Rightarrow> RawLine \<Rightarrow> pyval \<Rightarrow> CandidateItem list \<Rightarrow> string set
    \<Rightarrow> rat \<Rightarrow> rat \<Rightarrow> AuditEvent list \<Rightarrow> NormalizedItem \<times> AuditEvent list" where
  "merge_one_item B line llm_item line_candidates valid_catalog_ids item_threshold mods_threshold evs =
     (let (qty, nr_qty, evs_qty) = merge_qty line llm_item;
          conf_item = (if llm_item \<noteq> PNone
                       then normalize_confidence B (read llm_item ''confidence_item'' PNone) else None);
          conf_mods = (if llm_item \<noteq> PNone
                       then normalize_confidence B (read llm_item ''confidence_mods'' PNone) else None);
          nr_conf = (below conf_item item_threshold \<or> below conf_mods mods_threshold);
          (code, selected_candidate, nr_code, fallback_reason, evs_code) =
            resolve_item_code line llm_item line_candidates valid_catalog_ids;
          (name, nr_name) = resolve_name line llm_item selected_candidate;
          (ms, nr_mods, evs_mods) = resolve_mods B line llm_item conf_mods mods_threshold;
          llm_item_needs_review =
            (if llm_item \<noteq> PNone then truthy (read llm_item ''needs_review'' (PBool False)) else True);
          evs_missing =
            (if llm_item = PNone
             then [audit ''llm_item_missing'' ''No LLM item for parser line; using fallback fields''
                     (Some (rl_line_index line)) []]
             else [])
      in (\<lparr>ni_line_index = rl_line_index line,
           ni_raw_line = rl_raw_line line,
           ni_name_raw = rl_name_raw line,
           ni_qty = qty,
           name_normalized = name,
           item_code = code,
           ni_note_raw = rl_note_raw line,
           mods = ms,
           ni_group_id = read_llm llm_item ''group_id'',
           confidence_item = conf_item,
           confidence_mods = conf_mods,
           ni_needs_review =
             (rl_needs_review line \<or> nr_qty \<or> nr_conf \<or> nr_code \<or> nr_name \<or> nr_mods
              \<or> llm_item = PNone \<or> llm_item_needs_review)\<rparr>,
          evs @ evs_qty @ evs_code @ evs_mods @ evs_missing))"

text \<open>\<open>_merge_groups\<close>. The first inner loop keeps the indices that are integers,
  parser line indices and not yet seen in this group; the second claims each kept index
  in \<open>occupied\<close> unless an earlier group holds it.\<close>

fun clean_indices :: "int set \<Rightarrow> pyval list \<Rightarrow> int set \<Rightarrow> int list \<Rightarrow> bool \<Rightarrow> bool
    \<Rightarrow> int list \<times> bool \<times> bool" where
  "clean_indices valid_line_indices [] seen_local cleaned out_of_range_found duplicated_found =
     (cleaned, out_of_range_found, duplicated_found)"
| "clean_indices valid_line_indices (v # rest) seen_local cleaned out_of_range_found duplicated_found =
     (case as_int v of
        None \<Rightarrow> clean_indices valid_line_indices rest seen_local cleaned True duplicated_found
      | Some line_index \<Rightarrow>
          if line_index \<notin> valid_line_indices then
            clean_indices valid_line_indices rest seen_local cleaned True duplicated_found
          else if line_index \<in> seen_local then
            clean_indices valid_line_indices rest seen_local cleaned out_of_range_found True
          else clean_indices valid_line_indices rest (insert line_index seen_local)
                 (cleaned @ [line_index]) out_of_range_found duplicated_found)"

fun claim_indices :: "string \<Rightarrow> int list \<Rightarrow> (int \<rightharpoonup> string) \<Rightarrow> int list \<Rightarrow> bool
    \<Rightarrow> int list \<times> (int \<rightharpoonup> string) \<times> bool" where
  "claim_indices gid [] occupied final_indices conflict_found =
     (final_indices, occupied, conflict_found)"
| "claim_indices gid (line_index # rest) occupied final_indices conflict_found =
     (if occupied line_index \<noteq> None then claim_indices gid rest occupied final_indices True
      else claim_indices gid rest (occupied(line_index \<mapsto> gid)) (final_indices @ [line_index])
             conflict_found)"

definition merge_group :: "builtins \<Rightarrow> int set \<Rightarrow> rat \<Rightarrow> nat \<Rightarrow> pyval \<Rightarrow> (int \<rightharpoonup> string)
    \<Rightarrow> GroupResult \<times> (int \<rightharpoonup> string) \<times> AuditEvent list" where
  "merge_group B valid_line_indices group_threshold idx raw occupied =
     (let group_id_raw = read raw ''group_id'' PNone;
          gid = (case group_id_raw of
                   PStr s \<Rightarrow> if strip s \<noteq> [] then s else ''G'' @ string_of_nat (idx + 1)
                 | _ \<Rightarrow> ''G'' @ string_of_nat (idx + 1));
          group_type_raw = read raw ''type'' (PStr ''other'');
          gtype = (case group_type_raw of
                     PStr s \<Rightarrow> if s \<in> VALID_GROUP_TYPES then s else ''other''
                   | _ \<Rightarrow> ''other'');
          label_raw = read raw ''label'' PNone;
          lbl = (case label_raw of
                   PStr s \<Rightarrow> if strip s \<noteq> [] then s else ''group''
                 | _ \<Rightarrow> ''group'');
          raw_indices_value = read raw ''line_indices'' (PList []);
          invalid_indices_shape = (case raw_indices_value of PList _ \<Rightarrow> False | _ \<Rightarrow> True);
          raw_indices = (case raw_indices_value of PList xs \<Rightarrow> xs | _ \<Rightarrow> []);
          (cleaned, out_of_range_found, duplicated_found) =
            clean_indices valid_line_indices raw_indices {} [] False False;
          (final_indices, occupied', conflict_found) = claim_indices gid cleaned occupied [] False;
          conf = normalize_confidence B (read raw ''confidence_group'' PNone);
          low_confidence = below conf group_threshold;
          too_few_lines = (length final_indices < 2);
          needs_review =
            (truthy (read raw ''needs_review'' (PBool False))
             \<or> invalid_indices_shape \<or> out_of_range_found \<or> duplicated_found \<or> conflict_found
             \<or> too_few_lines \<or> low_confidence \<or> PStr gtype \<noteq> group_type_raw)
      in (\<lparr>group_id = gid, group_type = gtype, label = lbl, line_indices = final_indices,
            confidence_group = conf, gr_needs_review = needs_review\<rparr>,
          occupied',
          (if invalid_indices_shape
           then [audit ''group_line_indices_invalid_shape''
                   ''Group line_indices must be a list of line index integers'' None
                   [(''group_id'', PStr gid), (''line_indices'', raw_indices_value)]] else [])
          @ (if out_of_range_found
             then [audit ''group_line_index_out_of_range''
                     ''Group contains line_indices outside parser lines'' None
                     [(''group_id'', PStr gid), (''line_indices'', PList raw_indices)]] else [])
          @ (if duplicated_found
             then [audit ''group_line_index_duplicated'' ''Group line_indices contain duplicates''
                     None [(''group_id'', PStr gid)]] else [])
          @ (if conflict_found
             then [audit ''group_line_conflict''
                     ''Group conflicts with previous group; conflicting lines removed (first group wins)''
                     None [(''group_id'', PStr gid)]] else [])
          @ (if too_few_lines
             then [audit ''group_too_few_lines'' ''Group must contain at least 2 valid line_indices''
                     None [(''group_id'', PStr gid), (''line_indices'', PList (map PInt final_indices))]]
             else [])))"

fun merge_groups_loop :: "builtins \<Rightarrow> int set \<Rightarrow> rat \<Rightarrow> nat \<Rightarrow> pyval list \<Rightarrow> (int \<rightharpoonup> string)
    \<Rightarrow> AuditEvent list \<Rightarrow> GroupResult list \<times> AuditEvent list" where
  "merge_groups_loop B valid_line_indices group_threshold idx [] occupied evs = ([], evs)"
| "merge_groups_loop B valid_line_indices group_threshold idx (raw # rest) occupied evs =
     (let (g, occupied', evs_g) = merge_group B valid_line_indices group_threshold idx raw occupied;
          (gs, evs') = merge_groups_loop B valid_line_indices group_threshold (idx + 1) rest
                         occupied' (evs @ evs_g)
      in (g # gs, evs'))"

fun merge_groups :: "builtins \<Rightarrow> pyval \<Rightarrow> int set \<Rightarrow> rat \<Rightarrow> AuditEvent list
    \<Rightarrow> GroupResult list \<times> AuditEvent list" where
  "merge_groups B (PList raw_groups) valid_line_indices group_threshold evs =
     merge_groups_loop B valid_line_indices group_threshold 0 raw_groups Map.empty evs"
| "merge_groups B _ valid_line_indices group_threshold evs = ([], evs)"

text \<open>\<open>merge_and_validate\<close>. The loop over the parser lines threads the audit
  events; \<open>candidates.get(line_index, [])\<close> is \<open>candidates_get\<close>.\<close>

definition candidates_get :: "CandidatesByLine \<Rightarrow> int \<Rightarrow> CandidateItem list" where
  "candidates_get candidates i = (case map_of candidates i of Some cs \<Rightarrow> cs | None \<Rightarrow> [])"

definition by_line_get :: "(int \<rightharpoonup> pyval) \<Rightarrow> int \<Rightarrow> pyval" where
  "by_line_get by_line i = (case by_line i of Some raw \<Rightarrow> raw | None \<Rightarrow> PNone)"

fun merge_items :: "builtins \<Rightarrow> RawLine list \<Rightarrow> (int \<rightharpoonup> pyval) \<Rightarrow> CandidatesByLine \<Rightarrow> string set
    \<Rightarrow> rat \<Rightarrow> rat \<Rightarrow> AuditEvent list \<Rightarrow> NormalizedItem list \<times> AuditEvent list" where
  "merge_items B [] by_line candidates valid_catalog_ids item_threshold mods_threshold evs = ([], evs)"
| "merge_items B (line # rest) by_line candidates valid_catalog_ids item_threshold mods_threshold evs =
     (let (item, evs1) =
            merge_one_item B line (by_line_get by_line (rl_line_index line))
              (candidates_get candidates (rl_line_index line))
              valid_catalog_ids item_threshold mods_threshold evs;
          (its, evs2) =
            merge_items B rest by_line candidates valid_catalog_ids item_threshold mods_threshold evs1
      in (item # its, evs2))"

definition confidence_values :: "NormalizedItem list \<Rightarrow> GroupResult list \<Rightarrow> rat list" where
  "confidence_values its gs =
     concat (map (\<lambda>item. (case confidence_item item of Some c \<Rightarrow> [c] | None \<Rightarrow> [])
                        @ (case confidence_mods item of Some c \<Rightarrow> [c] | None \<Rightarrow> [])) its)
     @ concat (map (\<lambda>g. case confidence_group g of Some c \<Rightarrow> [c] | None \<Rightarrow> []) gs)"

definition structured_get :: "pyval \<Rightarrow> string \<Rightarrow> pyval" where
  "structured_get structured_result key =
     (case structured_result of
        PDict kvs \<Rightarrow> (case map_of kvs key of Some v \<Rightarrow> v | None \<Rightarrow> PNone)
      | _ \<Rightarrow> PNone)"

definition merge_and_validate :: "builtins \<Rightarrow> OrderRawParsed \<Rightarrow> CandidatesByLine \<Rightarrow> pyval
    \<Rightarrow> menu_catalog \<Rightarrow> rat option \<Rightarrow> rat option \<Rightarrow> rat option \<Rightarrow> OrderNormalized" where
  "merge_and_validate B order_raw candidates structured_result menu item_threshold mods_threshold
       group_threshold =
     (let normalized_item_threshold = normalize_threshold item_threshold;
          normalized_mods_threshold = normalize_threshold mods_threshold;
          normalized_group_threshold = normalize_threshold group_threshold;
          copied_lines = or_lines order_raw;
          valid_line_indices = set (map rl_line_index copied_lines);
          valid_catalog_ids = catalog_ids B menu candidates;
          evs0 = copy_audit_events (structured_get structured_result ''audit_events'');
          (llm_items_by_line, evs1) =
            collect_llm_items (structured_get structured_result ''items'') valid_line_indices evs0;
          (its, evs2) =
            merge_items B copied_lines llm_items_by_line candidates valid_catalog_ids
              normalized_item_threshold normalized_mods_threshold evs1;
          (gs, evs3) =
            merge_groups B (structured_get structured_result ''groups'') valid_line_indices
              normalized_group_threshold evs2;
          overall = (or_needs_review order_raw \<or> list_ex ni_needs_review its
                     \<or> list_ex gr_needs_review gs);
          cvs = confidence_values its gs
      in \<lparr>on_source_text = or_source_text order_raw,
          items = its,
          groups = gs,
          on_order_id = or_order_id order_raw,
          on_lines = copied_lines,
          audit_events = evs3,
          overall_needs_review = overall,
          order_confidence = (if cvs \<noteq> [] then Some (Min (set cvs)) else None)\<rparr>)"

text \<open>The item the loop of \<open>merge_and_validate\<close> builds for one parser line, and the
  indices the first inner loop of \<open>_merge_groups\<close> keeps for one raw group.\<close>

definition item_of :: "builtins \<Rightarrow> (int \<rightharpoonup> pyval) \<Rightarrow> CandidatesByLine \<Rightarrow> string set \<Rightarrow> rat \<Rightarrow> rat
    \<Rightarrow> RawLine \<Rightarrow> NormalizedItem \<times> AuditEvent list" where
  "item_of B by_line candidates valid t1 t2 line =
     merge_one_item B line (by_line_get by_line (rl_line_index line))
       (candidates_get candidates (rl_line_index line)) valid t1 t2 []"

definition raw_indices_of :: "pyval \<Rightarrow> pyval list" where
  "raw_indices_of raw = (case read raw ''line_indices'' (PList []) of PList xs \<Rightarrow> xs | _ \<Rightarrow> [])"

definition cleaned_of :: "int set \<Rightarrow> pyval \<Rightarrow> int list" where
  "cleaned_of valid raw = fst (clean_indices valid (raw_indices_of raw) {} [] False False)"

subsection \<open>Sample inputs\<close>

text \<open>A two-line order with one candidate per line, after the fixtures of
  \<open>tests/unit/test_merge_validate.py\<close>.\<close>

definition ex_builtins :: builtins where
  "ex_builtins = \<lparr>py_str = (\<lambda>v. []), py_float_of_str = (\<lambda>s. None)\<rparr>"

definition ex_order :: OrderRawParsed where
  "ex_order =
     \<lparr>or_source_text = ''potsticker x2'' @ [CHR 0x0A] @ ''soup x1'',
      or_lines =
        [\<lparr>rl_line_index = 0, rl_raw_line = ''potsticker x2'', rl_name_raw = ''potsticker'',
          rl_qty = 2, rl_note_raw = None, rl_needs_review = False\<rparr>,
         \<lparr>rl_line_index = 1, rl_raw_line = ''soup x1'', rl_name_raw = ''soup'',
          rl_qty = 1, rl_note_raw = None, rl_needs_review = False\<rparr>],
      or_order_id = None,
      or_needs_review = False\<rparr>"

definition ex_candidates :: CandidatesByLine where
  "ex_candidates =
     [(0, [\<lparr>ci_line_index = 0, candidate_name = ''potsticker'', candidate_code = Some ''I001''\<rparr>]),
      (1, [\<lparr>ci_line_index = 1, candidate_name = ''soup'', candidate_code = Some ''I002''\<rparr>])]"

definition ex_item :: "int \<Rightarrow> string \<Rightarrow> string \<Rightarrow> pyval \<Rightarrow> pyval" where
  "ex_item li code name q =
     PDict [(''line_index'', PInt li), (''item_code'', PStr code), (''name_normalized'', PStr name),
            (''qty'', q), (''mods'', PList []), (''confidence_item'', PFloat (95 / 100)),
            (''confidence_mods'', PFloat (95 / 100)), (''needs_review'', PBool False)]"

definition ex_group :: "string \<Rightarrow> pyval list \<Rightarrow> pyval" where
  "ex_group gid idxs =
     PDict [(''group_id'', PStr gid), (''type'', PStr ''pack_together''), (''label'', PStr ''bag''),
            (''line_indices'', PList idxs), (''confidence_group'', PFloat (95 / 100)),
            (''needs_review'', PBool False)]"

definition ex_structured :: "pyval list \<Rightarrow> pyval list \<Rightarrow> pyval" where
  "ex_structured its gs =
     PDict [(''items'', PList its), (''groups'', PList gs), (''audit_events'', PList []),
            (''metadata'', PDict [])]"

definition ex_catalog :: menu_catalog where
  "ex_catalog = CatMap [(''I001'', PList [PStr ''potsticker'']), (''I002'', PList [PStr ''soup''])]"

text \<open>The LLM answers with a boolean quantity for line 0, a code outside the catalog for
  line 1, a first group listing both lines in descending order and a second group
  listing line 1 again.\<close>

definition ex_structured_result :: pyval where
  "ex_structured_result =
     ex_structured
       [ex_item 0 ''I001'' ''potsticker'' (PBool True), ex_item 1 ''I999'' ''soup'' (PInt 1)]
       [ex_group ''G1'' [PInt 1, PInt 0], ex_group ''G2'' [PInt 1]]"

definition ex_merged :: OrderNormalized where
  "ex_merged =
     merge_and_validate ex_builtins ex_order ex_candidates ex_structured_result ex_catalog
       None None None"

text \<open>The first LLM item that names a line index (the one \<open>_collect_llm_items\<close> keeps),
  and the raw groups of a structured result.\<close>

definition first_llm_item :: "pyval \<Rightarrow> int \<Rightarrow> pyval" where
  "first_llm_item structured_result i =
     (case structured_get structured_result ''items'' of
        PList raw_items \<Rightarrow>
          (case List.find (\<lambda>raw. as_int (read raw ''line_index'' PNone) = Some i) raw_items of
             Some raw \<Rightarrow> raw
           | None \<Rightarrow> PNone)
      | _ \<Rightarrow> PNone)"

definition raw_groups_of :: "pyval \<Rightarrow> pyval list" where
  "raw_groups_of structured_result =
     (case structured_get structured_result ''groups'' of PList raw_groups \<Rightarrow> raw_groups | _ \<Rightarrow> [])"

text \<open>First-wins claiming on lists of indices: each list loses the indices in \<open>S\<close> and
  then adds its own to \<open>S\<close>.\<close>

fun claim_all :: "int set \<Rightarrow> int list list \<Rightarrow> int list list" where
  "claim_all S [] = []"
| "claim_all S (c # cs) = filter (\<lambda>i. i \<notin> S) c # claim_all (S \<union> set c) cs"

text \<open>A second answer of the LLM: quantity 5 for line 0, whose parser quantity is 2.\<close>

definition ex_structured_qty :: pyval where
  "ex_structured_qty = ex_structured [ex_item 0 ''I001'' ''potsticker'' (PInt 5)] []"

definition ex_merged_qty :: OrderNormalized where
  "ex_merged_qty =
     merge_and_validate ex_builtins ex_order ex_candidates ex_structured_qty ex_catalog
       None None None"

section \<open>cache.py\<close>

text \<open>Library functions the cache calls: \<open>json.dumps\<close> with the default separators (the
  sort key of set elements), \<open>json.dumps\<close> with the tight separators (the canonical
  text), and the hexadecimal SHA-256 digest of a text's UTF-8 bytes. Both calls of
  \<open>json.dumps\<close> pass \<open>sort_keys=True\<close>.\<close>

record libs =
  json_sort_key :: "pyval \<Rightarrow> string"
  json_canonical :: "pyval \<Rightarrow> string"
  sha256_hex :: "string \<Rightarrow> string"

datatype py_error = ValueError string | TypeError string

definition ITEM_MAPPING_CACHE :: string where
  "ITEM_MAPPING_CACHE = ''item_mapping_cache''"

definition NOTE_MODS_CACHE :: string where
  "NOTE_MODS_CACHE = ''note_mods_cache''"

definition GROUP_PATTERN_CACHE :: string where
  "GROUP_PATTERN_CACHE = ''group_pattern_cache''"

definition CACHE_NAMESPACES :: "string set" where
  "CACHE_NAMESPACES = {ITEM_MAPPING_CACHE, NOTE_MODS_CACHE, GROUP_PATTERN_CACHE}"

definition NAMESPACE_KEY_REQUIREMENTS :: "string \<Rightarrow> string list" where
  "NAMESPACE_KEY_REQUIREMENTS ns =
     (if ns = ITEM_MAPPING_CACHE then [''name_raw'', ''menu_catalog_version'']
      else if ns = NOTE_MODS_CACHE then [''note_raw'', ''allowed_mods_version'']
      else [''group_pattern'', ''menu_catalog_version'', ''allowed_mods_version''])"

fun is_missing_required :: "pyval \<Rightarrow> bool" where
  "is_missing_required PNone = True"
| "is_missing_required (PStr s) = (strip s = [])"
| "is_missing_required _ = False"

text \<open>\<open>_normalize_value\<close>: a mapping is rebuilt in the order of its sorted keys, a set
  becomes the list of its normalized elements sorted by their JSON text (\<open>sorted\<close> is
  stable, as \<open>sort_key\<close> is).\<close>

fun normalize_value :: "libs \<Rightarrow> pyval \<Rightarrow> pyval" where
  "normalize_value L (PStr s) = PStr (strip s)"
| "normalize_value L (PDict kvs) =
     PDict (sort_key fst (map (\<lambda>(key, v). (key, normalize_value L v)) kvs))"
| "normalize_value L (PList xs) = PList (map (normalize_value L) xs)"
| "normalize_value L (PTuple xs) = PList (map (normalize_value L) xs)"
| "normalize_value L (PSet xs) =
     PList (sort_key (json_sort_key L) (map (normalize_value L) xs))"
| "normalize_value L v = v"

definition normalize_payload :: "libs \<Rightarrow> (string \<times> pyval) list \<Rightarrow> (string \<times> pyval) list" where
  "normalize_payload L payload =
     sort_key fst (map (\<lambda>(key, v). (key, normalize_value L v)) payload)"

definition payload_get :: "(string \<times> pyval) list \<Rightarrow> string \<Rightarrow> pyval" where
  "payload_get payload field = (case map_of payload field of Some v \<Rightarrow> v | None \<Rightarrow> PNone)"

fun join_comma :: "string list \<Rightarrow> string" where
  "join_comma [] = []"
| "join_comma [x] = x"
| "join_comma (x # y # rest) = x @ '', '' @ join_comma (y # rest)"

definition make_key :: "libs \<Rightarrow> string \<Rightarrow> (string \<times> pyval) list \<Rightarrow> py_error + string" where
  "make_key L namespace key_payload =
     (if namespace \<notin> CACHE_NAMESPACES then Inl (ValueError (''Unsupported namespace: '' @ namespace))
      else
        let required_fields = NAMESPACE_KEY_REQUIREMENTS namespace;
            missing = filter (\<lambda>field. is_missing_required (payload_get key_payload field))
                        required_fields
        in if missing \<noteq> [] then
             Inl (ValueError (''Missing key fields for '' @ namespace @ '': '' @ join_comma missing))
           else
             let normalized_payload = normalize_payload L key_payload;
                 canonical = json_canonical L (PDict normalized_payload);
                 digest = sha256_hex L canonical
             in Inr (namespace @ '':'' @ digest))"

text \<open>\<open>CacheEntry\<close>, the in-memory backend and \<open>POSNormCache\<close>. Times are the readings
  of \<open>time.time()\<close>, passed in by the caller of the model.\<close>

record CacheEntry =
  ce_value :: pyval
  ce_confidence :: rat
  ce_meta :: "(string \<times> pyval) list"
  created_at :: rat
  expires_at :: "rat option"

definition is_expired :: "CacheEntry \<Rightarrow> rat \<Rightarrow> bool" where
  "is_expired entry ts = (case expires_at entry of None \<Rightarrow> False | Some e \<Rightarrow> ts \<ge> e)"

type_synonym store = "string \<rightharpoonup> (string \<rightharpoonup> CacheEntry)"

definition backend_get :: "store \<Rightarrow> string \<Rightarrow> string \<Rightarrow> CacheEntry option" where
  "backend_get st namespace key = (case st namespace of None \<Rightarrow> None | Some bucket \<Rightarrow> bucket key)"

definition backend_set :: "store \<Rightarrow> string \<Rightarrow> string \<Rightarrow> CacheEntry \<Rightarrow> store" where
  "backend_set st namespace key entry =
     (let bucket = (case st namespace of None \<Rightarrow> Map.empty | Some b \<Rightarrow> b)
      in st(namespace \<mapsto> bucket(key \<mapsto> entry)))"

definition backend_delete :: "store \<Rightarrow> string \<Rightarrow> string \<Rightarrow> store" where
  "backend_delete st namespace key =
     (case st namespace of
        None \<Rightarrow> st
      | Some bucket \<Rightarrow> if bucket = Map.empty then st else st(namespace \<mapsto> bucket(key := None)))"

record POSNormCache =
  backend :: store
  namespace_ttls :: "string \<rightharpoonup> int"

definition default_ttls :: "string \<rightharpoonup> int" where
  "default_ttls =
     [ITEM_MAPPING_CACHE \<mapsto> 3600, NOTE_MODS_CACHE \<mapsto> 3600, GROUP_PATTERN_CACHE \<mapsto> 1800]"

definition new_cache :: "(string \<times> int) list \<Rightarrow> py_error + POSNormCache" where
  "new_cache ttl_overrides =
     (let unknown_namespaces = sort (remdups (filter (\<lambda>ns. ns \<notin> CACHE_NAMESPACES) (map fst ttl_overrides)))
      in if unknown_namespaces \<noteq> [] then
           Inl (ValueError (''Unsupported TTL namespace(s): '' @ join_comma unknown_namespaces))
         else Inr \<lparr>backend = Map.empty, namespace_ttls = default_ttls ++ map_of (rev ttl_overrides)\<rparr>)"

definition cache_get :: "libs \<Rightarrow> POSNormCache \<Rightarrow> rat \<Rightarrow> string \<Rightarrow> (string \<times> pyval) list
    \<Rightarrow> py_error + (CacheEntry option \<times> POSNormCache)" where
  "cache_get L c now namespace key_payload =
     (case make_key L namespace key_payload of
        Inl e \<Rightarrow> Inl e
      | Inr key \<Rightarrow>
          (case backend_get (backend c) namespace key of
             None \<Rightarrow> Inr (None, c)
           | Some entry \<Rightarrow>
               if is_expired entry now
               then Inr (None, c\<lparr>backend := backend_delete (backend c) namespace key\<rparr>)
               else Inr (Some entry, c)))"

definition cache_set :: "libs \<Rightarrow> POSNormCache \<Rightarrow> rat \<Rightarrow> string \<Rightarrow> (string \<times> pyval) list \<Rightarrow> pyval
    \<Rightarrow> rat \<Rightarrow> (string \<times> pyval) list \<Rightarrow> py_error + (CacheEntry \<times> POSNormCache)" where
  "cache_set L c now namespace key_payload v conf meta =
     (case make_key L namespace key_payload of
        Inl e \<Rightarrow> Inl e
      | Inr key \<Rightarrow>
          let ttl_s = namespace_ttls c namespace;
              expires = (case ttl_s of
                           Some ttl \<Rightarrow> if ttl > 0 then Some (now + of_int ttl) else None
                         | None \<Rightarrow> None);
              entry = \<lparr>ce_value = v, ce_confidence = max 0 (min 1 conf), ce_meta = meta,
                       created_at = now, expires_at = expires\<rparr>
          in Inr (entry, c\<lparr>backend := backend_set (backend c) namespace key entry\<rparr>))"

text \<open>Two payloads are \<open>reordered\<close> when one is obtained from the other by permuting the
  entries of mappings and the elements of sets, at any depth. A value is well formed
  when no mapping inside it has a repeated key, as in every dictionary of the host
  language.\<close>

inductive reordered :: "pyval \<Rightarrow> pyval \<Rightarrow> bool" where
  ro_refl: "reordered v v"
| ro_list: "list_all2 reordered xs ys \<Longrightarrow> reordered (PList xs) (PList ys)"
| ro_tuple: "list_all2 reordered xs ys \<Longrightarrow> reordered (PTuple xs) (PTuple ys)"
| ro_dict: "list_all2 (\<lambda>a b. fst a = fst b \<and> reordered (snd a) (snd b)) kvs kvs1 \<Longrightarrow>
            mset kvs1 = mset kvs2 \<Longrightarrow> reordered (PDict kvs) (PDict kvs2)"
| ro_set: "list_all2 reordered xs xs1 \<Longrightarrow> mset xs1 = mset xs2 \<Longrightarrow>
           reordered (PSet xs) (PSet xs2)"

fun wf_val :: "pyval \<Rightarrow> bool" where
  "wf_val (PDict kvs) = (distinct (map fst kvs) \<and> list_all (\<lambda>(key, v). wf_val v) kvs)"
| "wf_val (PList xs) = list_all wf_val xs"
| "wf_val (PTuple xs) = list_all wf_val xs"
| "wf_val (PSet xs) = list_all wf_val xs"
| "wf_val v = True"

text \<open>The JSON text used as sort key tells the normalized elements of every set in the
  value apart, as \<open>json.dumps\<close> does for the values a set can hold.\<close>

fun set_keys_inj :: "libs \<Rightarrow> pyval \<Rightarrow> bool" where
  "set_keys_inj L (PDict kvs) = list_all (\<lambda>(key, v). set_keys_inj L v) kvs"
| "set_keys_inj L (PList xs) = list_all (set_keys_inj L) xs"
| "set_keys_inj L (PTuple xs) = list_all (set_keys_inj L) xs"
| "set_keys_inj L (PSet xs) =
     (list_all (set_keys_inj L) xs \<and>
      list_all (\<lambda>x. list_all (\<lambda>y. json_sort_key L (normalize_value L x) = json_sort_key L (normalize_value L y)
                                  \<longrightarrow> normalize_value L x = normalize_value L y) xs) xs)"
| "set_keys_inj L v = True"

subsection \<open>Sample cache inputs\<close>

text \<open>A plain printer standing in for \<open>json.dumps\<close> on the sample payloads (no escaping, a
  comma after every element), the identity standing in for the digest, two payloads equal
  up to reordering, and a cache whose item-mapping namespace has a TTL of 5 seconds.\<close>

fun ex_json :: "pyval \<Rightarrow> string" where
  "ex_json PNone = ''null''"
| "ex_json (PBool b) = (if b then ''true'' else ''false'')"
| "ex_json (PInt i) = (if i < 0 then ''-'' else []) @ string_of_nat (nat \<bar>i\<bar>)"
| "ex_json (PStr s) = [CHR 0x22] @ s @ [CHR 0x22]"
| "ex_json (PList xs) = ''['' @ concat (map (\<lambda>x. ex_json x @ '','') xs) @ '']''"
| "ex_json (PDict kvs) =
     ''{'' @ concat (map (\<lambda>(key, v). [CHR 0x22] @ key @ [CHR 0x22] @ '':'' @ ex_json v @ '','') kvs) @ ''}''"
| "ex_json _ = []"

definition ex_libs :: libs where
  "ex_libs = \<lparr>json_sort_key = ex_json, json_canonical = ex_json, sha256_hex = (\<lambda>s. s)\<rparr>"

definition ex_payload :: "(string \<times> pyval) list" where
  "ex_payload =
     [(''name_raw'', PStr '' soup ''), (''menu_catalog_version'', PStr ''v1''),
      (''tags'', PSet [PStr ''b'', PStr ''a'']),
      (''ctx'', PDict [(''y'', PInt 2), (''x'', PInt 1)])]"

definition ex_payload_reordered :: "(string \<times> pyval) list" where
  "ex_payload_reordered =
     [(''menu_catalog_version'', PStr ''v1''),
      (''ctx'', PDict [(''x'', PInt 1), (''y'', PInt 2)]),
      (''name_raw'', PStr '' soup ''),
      (''tags'', PSet [PStr ''a'', PStr ''b''])]"

definition ex_cache :: POSNormCache where
  "ex_cache = \<lparr>backend = Map.empty, namespace_ttls = default_ttls(ITEM_MAPPING_CACHE \<mapsto> 5)\<rparr>"

section \<open>audit.py\<close>

text \<open>Character tests of the host language on the code points below 256:
  \<open>str.isdigit\<close>, \<open>str.isalpha\<close> and \<open>str.lower\<close>.\<close>

definition py_isdigit :: "char \<Rightarrow> bool" where
  "py_isdigit c = (let n = (of_char c :: nat) in (48 \<le> n \<and> n \<le> 57) \<or> n = 178 \<or> n = 179 \<or> n = 185)"

definition py_isalpha :: "char \<Rightarrow> bool" where
  "py_isalpha c =
     (let n = (of_char c :: nat) in
        (65 \<le> n \<and> n \<le> 90) \<or> (97 \<le> n \<and> n \<le> 122) \<or> n = 170 \<or> n = 181 \<or> n = 186
        \<or> (192 \<le> n \<and> n \<le> 214) \<or> (216 \<le> n \<and> n \<le> 246) \<or> (248 \<le> n \<and> n \<le> 255))"

definition py_lower_char :: "char \<Rightarrow> char" where
  "py_lower_char c =
     (let n = (of_char c :: nat) in
        if (65 \<le> n \<and> n \<le> 90) \<or> (192 \<le> n \<and> n \<le> 214) \<or> (216 \<le> n \<and> n \<le> 222)
        then char_of (n + 32) else c)"

definition py_lower :: "string \<Rightarrow> string" where
  "py_lower s = map py_lower_char s"

definition MASK_TEXT :: string where
  "MASK_TEXT = ''***''"

definition sensitive_keys :: "string set" where
  "sensitive_keys =
     {''password'', ''token'', ''api_key'', ''authorization'', ''cookie'', ''phone'', ''mobile'',
      ''email''}"

definition is_sensitive_key :: "string \<Rightarrow> bool" where
  "is_sensitive_key key =
     (let key_l = py_lower key in
        key_l \<in> sensitive_keys \<or> sublist ''token'' key_l \<or> sublist ''secret'' key_l)"

definition looks_secret :: "string \<Rightarrow> bool" where
  "looks_secret s =
     ((CHR ''@'' \<in> set s \<and> CHR ''.'' \<in> set s)
      \<or> (length s \<ge> 16 \<and> list_ex py_isdigit s \<and> list_ex py_isalpha s))"

text \<open>\<open>_mask_value\<close>.\<close>

fun mask_value :: "pyval \<Rightarrow> pyval" where
  "mask_value (PDict kvs) =
     PDict (map (\<lambda>(key, inner).
                   if is_sensitive_key key then (key, PStr MASK_TEXT) else (key, mask_value inner)) kvs)"
| "mask_value (PList xs) = PList (map mask_value xs)"
| "mask_value (PStr s) = (if looks_secret s then PStr MASK_TEXT else PStr s)"
| "mask_value v = v"

text \<open>Dictionary operations on association lists: \<open>d.get(k)\<close>, \<open>d[k] = v\<close> (the entry
  keeps its place, a new key goes last) and \<open>d.setdefault(k, v)\<close>.\<close>

definition dict_get :: "(string \<times> pyval) list \<Rightarrow> string \<Rightarrow> pyval" where
  "dict_get d key = (case map_of d key of Some v \<Rightarrow> v | None \<Rightarrow> PNone)"

definition dict_set :: "(string \<times> pyval) list \<Rightarrow> string \<Rightarrow> pyval \<Rightarrow> (string \<times> pyval) list" where
  "dict_set d key v = AList.update key v d"

definition setdefault :: "(string \<times> pyval) list \<Rightarrow> string \<Rightarrow> pyval \<Rightarrow> (string \<times> pyval) list" where
  "setdefault d key v = (if map_of d key = None then AList.update key v d else d)"

text \<open>\<open>AuditLogger._normalize_human_correction\<close>; \<open>now\<close> is the reading of
  \<open>_utc_now_iso()\<close>.\<close>

definition normalize_human_correction :: "string \<Rightarrow> (string \<times> pyval) list \<Rightarrow> py_error + pyval" where
  "normalize_human_correction now payload =
     (let correction0 = dict_get payload ''human_correction'';
          legacy_before = dict_get payload ''before'';
          legacy_after = dict_get payload ''after'';
          legacy_operator = dict_get payload ''operator'';
          legacy_timestamp = dict_get payload ''correction_timestamp'';
          correction =
            (if correction0 = PNone \<and>
                (legacy_before \<noteq> PNone \<or> legacy_after \<noteq> PNone \<or> legacy_operator \<noteq> PNone
                 \<or> legacy_timestamp \<noteq> PNone)
             then PDict [(''before'', legacy_before), (''after'', legacy_after),
                         (''operator'', legacy_operator), (''timestamp'', legacy_timestamp)]
             else correction0)
      in case correction of
           PNone \<Rightarrow> Inr PNone
         | PDict kvs \<Rightarrow>
             (let cp1 = (if dict_get kvs ''before'' = PNone then dict_set kvs ''before'' legacy_before else kvs);
                  cp2 = (if dict_get cp1 ''after'' = PNone then dict_set cp1 ''after'' legacy_after else cp1);
                  cp3 = (case dict_get cp2 ''operator'' of
                           PStr s \<Rightarrow> if strip s \<noteq> [] then dict_set cp2 ''operator'' (PStr (strip s))
                                     else dict_set cp2 ''operator'' (PStr ''unknown'')
                         | _ \<Rightarrow> dict_set cp2 ''operator'' (PStr ''unknown''));
                  cp4 = (if nonblank_str (dict_get cp3 ''timestamp'') then cp3
                         else dict_set cp3 ''timestamp'' (PStr now))
              in Inr (PDict cp4))
         | _ \<Rightarrow> Inl (ValueError ''human_correction must be an object''))"

text \<open>\<open>AuditLogger._to_event_payload\<close> on a mapping (an \<open>AuditEventRecord\<close> is the
  mapping its \<open>as_dict\<close> returns).\<close>

definition to_event_payload :: "string \<Rightarrow> (string \<times> pyval) list \<Rightarrow> py_error + (string \<times> pyval) list" where
  "to_event_payload now event =
     (if \<not> nonblank_str (dict_get event ''order_id'') then
        Inl (ValueError ''audit event missing required field: order_id'')
      else if \<not> nonblank_str (dict_get event ''event_type'') then
        Inl (ValueError ''audit event missing required field: event_type'')
      else
        let payload =
              foldl (\<lambda>d (key, v). setdefault d key v) event
                [(''timestamp'', PStr now), (''raw_text'', PNone), (''parse_result'', PNone),
                 (''candidates'', PNone), (''llm_request'', PNone), (''llm_response'', PNone),
                 (''fallback_reason'', PNone), (''merge_result'', PNone), (''final_output'', PNone),
                 (''human_correction'', PNone), (''metadata'', PDict []),
                 (''needs_review'', PBool False)]
        in case normalize_human_correction now payload of
             Inl e \<Rightarrow> Inl e
           | Inr hc \<Rightarrow> Inr (dict_set payload ''human_correction'' hc))"

text \<open>\<open>AuditLogger._mask_llm_fields\<close>.\<close>

definition mask_llm_fields :: "(string \<times> pyval) list \<Rightarrow> (string \<times> pyval) list" where
  "mask_llm_fields payload =
     (let masked1 = dict_set payload ''llm_request'' (mask_value (dict_get payload ''llm_request''));
          masked2 = dict_set masked1 ''llm_response'' (mask_value (dict_get masked1 ''llm_response''))
      in masked2)"

text \<open>\<open>AuditLogger.write_event\<close>. The log file is the list of the payloads appended to
  it, each written as one line of JSON; a payload \<open>json.dumps\<close> cannot serialize (one
  holding a set) raises \<open>TypeError\<close> and leaves the file as it was.\<close>

fun json_serializable :: "pyval \<Rightarrow> bool" where
  "json_serializable (PSet xs) = False"
| "json_serializable (PList xs) = list_all json_serializable xs"
| "json_serializable (PTuple xs) = list_all json_serializable xs"
| "json_serializable (PDict kvs) = list_all (\<lambda>(key, v). json_serializable v) kvs"
| "json_serializable v = True"

definition write_event :: "string \<Rightarrow> (string \<times> pyval) list \<Rightarrow> bool \<Rightarrow> (string \<times> pyval) list list
    \<Rightarrow> py_error + ((string \<times> pyval) list \<times> (string \<times> pyval) list list)" where
  "write_event now event mask_sensitive log_lines =
     (case to_event_payload now event of
        Inl e \<Rightarrow> Inl e
      | Inr payload0 \<Rightarrow>
          let payload = (if mask_sensitive then mask_llm_fields payload0 else payload0)
          in if json_serializable (PDict payload) then Inr (payload, log_lines @ [payload])
             else Inl (TypeError ''Object is not JSON serializable''))"

subsection \<open>Sample audit event\<close>

text \<open>The event of \<open>test_audit_masks_sensitive_fields_in_llm_payload\<close>, with a raw text
  that itself looks like an e-mail address.\<close>

definition ex_event :: "(string \<times> pyval) list" where
  "ex_event =
     [(''order_id'', PStr ''ORD-SEC-1''), (''event_type'', PStr ''llm_call''),
      (''raw_text'', PStr ''staff@example.com''),
      (''llm_request'',
         PDict [(''prompt'', PStr ''normalize this order''),
                (''api_key'', PStr ''sk-1234567890ABCDEF''),
                (''operator_email'', PStr ''staff@example.com'')]),
      (''llm_response'',
         PDict [(''token'', PStr ''response-token-12345''),
                (''result'', PDict [(''item_id'', PStr ''I001'')])])]"

definition ex_now :: string where
  "ex_now = ''2026-02-14T12:30:00+00:00''"

section \<open>candidates.py\<close>























subsection \<open>Sample scoring inputs\<close>










section \<open>parser.py\<close>

text \<open>The parser reads receipts with Chinese text, so its strings are lists of Unicode
  code points. \<open>uspace\<close> is the whitespace of \<open>str.isspace\<close>, \<open>str.strip\<close> and the
  pattern \<open>\s\<close>; the decimal digits of the pattern \<open>\d\<close> (the Unicode category Nd) are a
  parameter of the model.\<close>

type_synonym ustring = "nat list"

definition ustr :: "string \<Rightarrow> ustring" where
  "ustr s = map of_char s"

definition uspace :: "nat \<Rightarrow> bool" where
  "uspace c =
     (c \<in> {9, 10, 11, 12, 13, 28, 29, 30, 31, 32, 133, 160, 5760, 8232, 8233, 8239, 8287, 12288}
      \<or> (8192 \<le> c \<and> c \<le> 8202))"

definition ustrip :: "ustring \<Rightarrow> ustring" where
  "ustrip s = rev (dropWhile uspace (rev (dropWhile uspace s)))"

subsection \<open>Regular expressions\<close>

text \<open>The patterns of the parser use character classes, alternation, sequence and
  repetition only. \<open>lang\<close> is the set of texts a pattern matches in full; the matcher
  works by derivatives. \<open>re_match\<close> is \<open>pattern.match\<close> for a pattern that starts with
  \<open>^\<close>: some prefix of the text matches. \<open>re_match_end\<close> is \<open>pattern.match\<close> for a
  pattern between \<open>^\<close> and \<open>$\<close>: the text matches in full, up to one final line feed.
  \<open>re_search\<close> is \<open>pattern.search\<close>: a match starts somewhere in the text.\<close>

datatype rx = Nul | Eps | Sym "nat \<Rightarrow> bool" | Alt rx rx | Seq rx rx | Star rx

inductive_set star :: "ustring set \<Rightarrow> ustring set" for A :: "ustring set" where
  star_nil: "[] \<in> star A"
| star_app: "u \<in> A \<Longrightarrow> v \<in> star A \<Longrightarrow> u @ v \<in> star A"

fun lang :: "rx \<Rightarrow> ustring set" where
  "lang Nul = {}"
| "lang Eps = {[]}"
| "lang (Sym P) = {[c] | c. P c}"
| "lang (Alt r s) = lang r \<union> lang s"
| "lang (Seq r s) = {u @ v | u v. u \<in> lang r \<and> v \<in> lang s}"
| "lang (Star r) = star (lang r)"

fun nullable :: "rx \<Rightarrow> bool" where
  "nullable Nul = False"
| "nullable Eps = True"
| "nullable (Sym P) = False"
| "nullable (Alt r s) = (nullable r \<or> nullable s)"
| "nullable (Seq r s) = (nullable r \<and> nullable s)"
| "nullable (Star r) = True"

fun alt_rx :: "rx \<Rightarrow> rx \<Rightarrow> rx" where
  "alt_rx Nul s = s"
| "alt_rx r Nul = r"
| "alt_rx r s = Alt r s"

fun seq_rx :: "rx \<Rightarrow> rx \<Rightarrow> rx" where
  "seq_rx Nul s = Nul"
| "seq_rx r Nul = Nul"
| "seq_rx Eps s = s"
| "seq_rx r s = Seq r s"

fun deriv :: "nat \<Rightarrow> rx \<Rightarrow> rx" where
  "deriv c Nul = Nul"
| "deriv c Eps = Nul"
| "deriv c (Sym P) = (if P c then Eps else Nul)"
| "deriv c (Alt r s) = alt_rx (deriv c r) (deriv c s)"
| "deriv c (Seq r s) =
     (if nullable r then alt_rx (seq_rx (deriv c r) s) (deriv c s) else seq_rx (deriv c r) s)"
| "deriv c (Star r) = seq_rx (deriv c r) (Star r)"

fun accepts :: "rx \<Rightarrow> ustring \<Rightarrow> bool" where
  "accepts r [] = nullable r"
| "accepts r (c # cs) = accepts (deriv c r) cs"

fun re_match :: "rx \<Rightarrow> ustring \<Rightarrow> bool" where
  "re_match r [] = nullable r"
| "re_match r (c # cs) = (nullable r \<or> re_match (deriv c r) cs)"

definition re_match_end :: "rx \<Rightarrow> ustring \<Rightarrow> bool" where
  "re_match_end r s = (accepts r s \<or> (s \<noteq> [] \<and> last s = 10 \<and> accepts r (butlast s)))"

fun re_search :: "rx \<Rightarrow> ustring \<Rightarrow> bool" where
  "re_search r [] = nullable r"
| "re_search r (c # cs) = (re_match r (c # cs) \<or> re_search r cs)"

text \<open>Pattern notation: one character, a letter under \<open>IGNORECASE\<close>, a literal word,
  \<open>r?\<close>, \<open>r+\<close>, \<open>r{m,n}\<close>, a sequence and an alternation of several patterns.\<close>

definition ch :: "nat \<Rightarrow> rx" where
  "ch c = Sym (\<lambda>x. x = c)"

definition ci :: "nat \<Rightarrow> nat \<Rightarrow> rx" where
  "ci lower upper = Sym (\<lambda>x. x = lower \<or> x = upper)"

definition opt :: "rx \<Rightarrow> rx" where
  "opt r = Alt Eps r"

definition plus :: "rx \<Rightarrow> rx" where
  "plus r = Seq r (Star r)"

definition seqs :: "rx list \<Rightarrow> rx" where
  "seqs rs = foldr Seq rs Eps"

definition alts :: "rx list \<Rightarrow> rx" where
  "alts rs = foldr Alt rs Nul"

definition word :: "ustring \<Rightarrow> rx" where
  "word w = seqs (map ch w)"

definition rep :: "nat \<Rightarrow> nat \<Rightarrow> rx \<Rightarrow> rx" where
  "rep m n r = seqs (replicate m r @ replicate (n - m) (opt r))"

definition ws :: rx where
  "ws = Sym uspace"

definition dash_or_space :: rx where
  "dash_or_space = Sym (\<lambda>c. c = 45 \<or> uspace c)"

subsection \<open>The patterns\<close>

text \<open>\<open>_SEPARATOR_RE = ^[\-=~_*#\s]{3,}$\<close>.\<close>

definition separator_char :: "nat \<Rightarrow> bool" where
  "separator_char c = (c = 45 \<or> c = 61 \<or> c = 126 \<or> c = 95 \<or> c = 42 \<or> c = 35 \<or> uspace c)"

definition SEPARATOR_RE :: rx where
  "SEPARATOR_RE = Seq (Sym separator_char) (Seq (Sym separator_char)
                    (Seq (Sym separator_char) (Star (Sym separator_char))))"

text \<open>The metadata keywords of \<open>_NOISE_PREFIX_RE\<close>, in the order of the source:
  telephone (two spellings), address, tax id, bill number, order, time, date, total,
  subtotal, sum, receivable, change. The pattern is
  \<open>^\s*(?:keyword)(?:\s|:|$)\<close> under \<open>IGNORECASE\<close>.\<close>

definition tel_ci :: rx where
  "tel_ci = seqs [ci 116 84, ci 101 69, ci 108 76]"

definition noise_keywords :: "rx list" where
  "noise_keywords =
     [word [38651, 35441], tel_ci, word [22320, 22336], word [32113, 32232], word [21934, 34399],
      word [35330, 21934], word [26178, 38291], word [26085, 26399], word [32317, 35336],
      word [23567, 35336], word [21512, 35336], word [25033, 25910], word [25214, 38646]]"

definition NOISE_PREFIX_open :: rx where
  "NOISE_PREFIX_open = Seq (Star ws) (Seq (alts noise_keywords) (Alt ws (ch 58)))"

definition NOISE_PREFIX_closed :: rx where
  "NOISE_PREFIX_closed = Seq (Star ws) (Seq (alts noise_keywords) Eps)"

definition noise_prefix :: "ustring \<Rightarrow> bool" where
  "noise_prefix s = (re_match NOISE_PREFIX_open s \<or> re_match_end NOISE_PREFIX_closed s)"

text \<open>\<open>_HAS_QTY_HINT_RE = [x*]\s*\S+|\d+\s*\<close>\<open>U+4EFD\<close>, under \<open>IGNORECASE\<close>.\<close>

definition HAS_QTY_HINT_RE :: "(nat \<Rightarrow> bool) \<Rightarrow> rx" where
  "HAS_QTY_HINT_RE dec =
     Alt (seqs [Sym (\<lambda>c. c = 120 \<or> c = 88 \<or> c = 42), Star ws, plus (Sym (\<lambda>c. \<not> uspace c))])
         (seqs [plus (Sym dec), Star ws, ch 20221])"

text \<open>\<open>_PHONE_ONLY_RE\<close> and \<open>_DATETIME_ONLY_RE\<close>, both between \<open>^\<close> and \<open>$\<close>.\<close>

definition PHONE_ONLY_RE :: "(nat \<Rightarrow> bool) \<Rightarrow> rx" where
  "PHONE_ONLY_RE dec =
     seqs [Star ws, opt (Alt (word [38651, 35441]) tel_ci), Star ws, opt (ch 58), Star ws,
           opt (seqs [opt (ch 43), word [56, 56, 54], opt dash_or_space]),
           Alt (seqs [ch 48, rep 1 2 (Sym dec), opt dash_or_space, rep 6 8 (Sym dec)])
               (seqs [word [48, 57], rep 2 2 (Sym dec), opt dash_or_space, rep 3 3 (Sym dec),
                      opt dash_or_space, rep 3 3 (Sym dec)]),
           opt (seqs [Star ws,
                      alts [ch 35, seqs [ci 101 69, ci 120 88, ci 116 84, opt (ch 46)], ch 36681],
                      Star ws, rep 1 5 (Sym dec)]),
           Star ws]"

definition clock_rx :: "(nat \<Rightarrow> bool) \<Rightarrow> rx" where
  "clock_rx dec = seqs [rep 1 2 (Sym dec), ch 58, rep 2 2 (Sym dec), opt (seqs [ch 58, rep 2 2 (Sym dec)])]"

definition DATETIME_ONLY_RE :: "(nat \<Rightarrow> bool) \<Rightarrow> rx" where
  "DATETIME_ONLY_RE dec =
     seqs [Star ws,
           Alt (seqs [rep 4 4 (Sym dec), Sym (\<lambda>c. c = 47 \<or> c = 45), rep 1 2 (Sym dec),
                      Sym (\<lambda>c. c = 47 \<or> c = 45), rep 1 2 (Sym dec),
                      opt (seqs [plus ws, clock_rx dec])])
               (clock_rx dec),
           Star ws]"

text \<open>\<open>_STANDALONE_NOTE_RE\<close>: one of four note keywords, then a colon or whitespace,
  then the note, \<open>(.+)$\<close>; the dot matches every character but the line feed.\<close>

definition note_keywords :: "rx list" where
  "note_keywords = [word [20633, 35387], word [35387, 35352], word [38468, 35387], word [22791, 27880]]"

definition STANDALONE_NOTE_RE :: rx where
  "STANDALONE_NOTE_RE =
     Seq (Star ws) (Seq (alts note_keywords)
       (seqs [Star ws, Alt (Seq (ch 58) (Star ws)) (plus ws), plus (Sym (\<lambda>c. c \<noteq> 10))]))"

subsection \<open>The parser\<close>

text \<open>\<open>_SYMBOL_MAP\<close> and \<open>_normalize_for_parse\<close>.\<close>

definition symbol_map :: "nat \<Rightarrow> nat" where
  "symbol_map c =
     (if c = 65306 then 58 else if c = 65288 then 40 else if c = 65289 then 41
      else if c = 65290 then 42 else if c = 65121 then 42 else if c = 65284 then 36
      else if c = 65336 then 120 else if c = 65368 then 120 else if c = 215 then 120
      else if c = 12288 then 32 else c)"

fun collapse_uspace :: "bool \<Rightarrow> ustring \<Rightarrow> ustring" where
  "collapse_uspace in_run [] = []"
| "collapse_uspace in_run (c # cs) =
     (if uspace c then (if in_run then collapse_uspace True cs else 32 # collapse_uspace True cs)
      else c # collapse_uspace False cs)"

definition normalize_for_parse :: "ustring \<Rightarrow> ustring" where
  "normalize_for_parse line = ustrip (collapse_uspace False (map symbol_map line))"

text \<open>\<open>_is_noise_line\<close>.\<close>

definition is_noise_line :: "(nat \<Rightarrow> bool) \<Rightarrow> ustring \<Rightarrow> bool" where
  "is_noise_line dec normalized_line =
     (if normalized_line = [] then True
      else if re_match_end SEPARATOR_RE normalized_line then True
      else if noise_prefix normalized_line then
        (if re_search (HAS_QTY_HINT_RE dec) normalized_line then False else True)
      else if re_match_end (PHONE_ONLY_RE dec) normalized_line then True
      else if re_match_end (DATETIME_ONLY_RE dec) normalized_line then True
      else False)"

text \<open>\<open>RawLine\<close> as the parser builds it, its texts being lists of code points, and the
  parsed order. The extraction of name, quantity and note inside \<open>_parse_line\<close> and the
  note text captured by \<open>_STANDALONE_NOTE_RE\<close> are parameters: \<open>extract_fields\<close> returns the
  fields and the warnings of \<open>_parse_line\<close>, or the exception it raises with the warnings
  appended before.\<close>

record ParsedLine =
  pl_line_index :: nat
  pl_raw_line :: ustring
  pl_name_raw :: ustring
  pl_qty :: int
  pl_note_raw :: "ustring option"
  pl_needs_review :: bool

datatype parse_outcome =
    Parsed ustring int "ustring option" bool "ustring list"
  | Raised ustring "ustring list"

record parser_params =
  decimal :: "nat \<Rightarrow> bool"
  extract_fields :: "ustring \<Rightarrow> nat \<Rightarrow> parse_outcome"
  note_group :: "ustring \<Rightarrow> ustring"

record ParsedOrder =
  po_source_text :: ustring
  po_lines :: "ParsedLine list"
  po_parse_warnings :: "ustring list"
  po_needs_review :: bool
  po_parse_errors :: "ustring list"

definition is_standalone_note :: "parser_params \<Rightarrow> ustring \<Rightarrow> ustring option" where
  "is_standalone_note X raw_line =
     (let normalized = normalize_for_parse raw_line in
      if re_match_end STANDALONE_NOTE_RE normalized then
        (let note = ustrip (note_group X normalized) in if note = [] then None else Some note)
      else None)"

text \<open>\<open>str.splitlines\<close> and \<open>line.rstrip("\r")\<close>.\<close>

definition is_linebreak :: "nat \<Rightarrow> bool" where
  "is_linebreak c = (c \<in> {10, 11, 12, 13, 28, 29, 30, 133, 8232, 8233})"

fun splitlines_from :: "ustring \<Rightarrow> ustring \<Rightarrow> ustring list" where
  "splitlines_from acc [] = (if acc = [] then [] else [rev acc])"
| "splitlines_from acc [c] = (if is_linebreak c then [rev acc] else [rev (c # acc)])"
| "splitlines_from acc (c # d # rest) =
     (if c = 13 \<and> d = 10 then rev acc # splitlines_from [] rest
      else if is_linebreak c then rev acc # splitlines_from [] (d # rest)
      else splitlines_from (c # acc) (d # rest))"

definition splitlines :: "ustring \<Rightarrow> ustring list" where
  "splitlines text = splitlines_from [] text"

definition rstrip_cr :: "ustring \<Rightarrow> ustring" where
  "rstrip_cr line = rev (dropWhile (\<lambda>c. c = 13) (rev line))"

definition line_label :: "nat \<Rightarrow> ustring" where
  "line_label index = ustr (''line '' @ string_of_nat index @ '': '')"

text \<open>One iteration of the loop of \<open>parse_receipt_text\<close>; the state is the lines, the
  warnings and the errors collected so far.\<close>

definition parse_step :: "parser_params \<Rightarrow> nat \<times> ustring
    \<Rightarrow> ParsedLine list \<times> ustring list \<times> ustring list
    \<Rightarrow> ParsedLine list \<times> ustring list \<times> ustring list" where
  "parse_step X indexed st =
     (let (index, line) = indexed;
          (lines, parse_warnings, parse_errors) = st;
          raw_line = rstrip_cr line;
          normalized = normalize_for_parse raw_line
      in if normalized = [] \<or> is_noise_line (decimal X) normalized then st
         else case is_standalone_note X raw_line of
           Some standalone_note \<Rightarrow>
             (if lines \<noteq> [] then
                (let prev = last lines;
                     merged = (case pl_note_raw prev of
                                 Some existing \<Rightarrow>
                                   if existing \<noteq> [] then existing @ ustr ''; '' @ standalone_note
                                   else standalone_note
                               | None \<Rightarrow> standalone_note)
                 in (butlast lines @ [prev\<lparr>pl_note_raw := Some merged\<rparr>], parse_warnings, parse_errors))
              else (lines,
                    parse_warnings @ [line_label index @ ustr ''standalone note with no preceding item''],
                    parse_errors))
         | None \<Rightarrow>
             (case extract_fields X raw_line index of
                Parsed name_raw qty note_raw needs_review warnings \<Rightarrow>
                  (lines @ [\<lparr>pl_line_index = index, pl_raw_line = raw_line, pl_name_raw = name_raw,
                              pl_qty = qty, pl_note_raw = note_raw, pl_needs_review = needs_review\<rparr>],
                   parse_warnings @ warnings, parse_errors)
              | Raised exc warnings \<Rightarrow>
                  (lines @ [\<lparr>pl_line_index = index, pl_raw_line = raw_line,
                              pl_name_raw = (if normalize_for_parse raw_line \<noteq> []
                                             then normalize_for_parse raw_line else ustrip raw_line),
                              pl_qty = 1, pl_note_raw = None, pl_needs_review = True\<rparr>],
                   parse_warnings @ warnings
                     @ [line_label index @ ustr ''parser exception fallback, defaulted qty to 1''],
                   parse_errors @ [line_label index @ exc])))"

definition parse_loop :: "parser_params \<Rightarrow> (nat \<times> ustring) list
    \<Rightarrow> ParsedLine list \<times> ustring list \<times> ustring list
    \<Rightarrow> ParsedLine list \<times> ustring list \<times> ustring list" where
  "parse_loop X indexed_lines st = foldl (\<lambda>st indexed. parse_step X indexed st) st indexed_lines"

definition parse_receipt_text :: "parser_params \<Rightarrow> ustring \<Rightarrow> ParsedOrder" where
  "parse_receipt_text X text =
     (let (lines, parse_warnings, parse_errors) =
            parse_loop X (enumerate 0 (splitlines text)) ([], [], [])
      in \<lparr>po_source_text = text,
          po_lines = lines,
          po_parse_warnings = parse_warnings,
          po_needs_review = (parse_warnings \<noteq> [] \<or> parse_errors \<noteq> [] \<or> list_ex pl_needs_review lines),
          po_parse_errors = parse_errors\<rparr>)"

section \<open>Properties of the merge stage\<close>

lemma merge_one_item_events:
  "merge_one_item B line llm cands valid t1 t2 evs =
     (fst (merge_one_item B line llm cands valid t1 t2 []),
      evs @ snd (merge_one_item B line llm cands valid t1 t2 []))"
  by (simp add: merge_one_item_def Let_def split: prod.splits)

lemma merge_items_eq:
  "merge_items B lines by_line candidates valid t1 t2 evs =
     (map (\<lambda>line. fst (item_of B by_line candidates valid t1 t2 line)) lines,
      evs @ concat (map (\<lambda>line. snd (item_of B by_line candidates valid t1 t2 line)) lines))"
proof (induction lines arbitrary: evs)
  case Nil
  show ?case by simp
next
  case (Cons line rest)
  show ?case
    apply (simp only: merge_items.simps)
    apply (subst merge_one_item_events)
    apply (simp add: Cons.IH item_of_def Let_def split: prod.splits)
    done
qed

lemma merge_groups_loop_events:
  "set evs \<subseteq> set (snd (merge_groups_loop B valid thr idx raws occ evs))"
proof (induction raws arbitrary: idx occ evs)
  case Nil
  show ?case by simp
next
  case (Cons raw rest)
  show ?case
    using Cons.IH
    by (auto simp: Let_def split: prod.splits) (metis Un_iff set_append snd_conv subsetD)
qed

lemma merge_groups_events:
  "set evs \<subseteq> set (snd (merge_groups B rg valid thr evs))"
  using merge_groups_loop_events by (cases rg) auto

lemma items_merge_and_validate:
  "items (merge_and_validate B order_raw candidates sr menu t1 t2 t3) =
     map (\<lambda>line. fst (item_of B
            (fst (collect_llm_items (structured_get sr ''items'')
                    (set (map rl_line_index (or_lines order_raw)))
                    (copy_audit_events (structured_get sr ''audit_events''))))
            candidates (catalog_ids B menu candidates)
            (normalize_threshold t1) (normalize_threshold t2) line))
       (or_lines order_raw)"
  by (simp add: merge_and_validate_def Let_def merge_items_eq split: prod.splits)

subsection \<open>Item codes\<close>

lemma find_candidate_by_code_Some:
  "find_candidate_by_code cs (Some code) = Some c \<Longrightarrow> c \<in> set cs \<and> candidate_code c = Some code"
  by (auto simp: find_Some_iff split: if_splits)

lemma resolve_item_code_sound:
  assumes "resolve_item_code line llm cs valid = (Some code, sel, nr, fr, evs)"
  shows "code \<in> valid \<and> (\<exists>c \<in> set cs. candidate_code c = Some code)"
proof -
  let ?c0 = "llm_item_code llm"
  show ?thesis
  proof (cases "?c0")
    case None
    with assms show ?thesis
      by (auto simp: resolve_item_code_def Let_def split: list.splits option.splits if_splits)
  next
    case (Some c)
    show ?thesis
    proof (cases "c \<in> valid")
      case False
      with Some assms show ?thesis
        by (auto simp: resolve_item_code_def Let_def split: list.splits option.splits if_splits)
    next
      case True
      show ?thesis
      proof (cases "find_candidate_by_code cs (Some c)")
        case None
        with True Some assms show ?thesis
          by (auto simp: resolve_item_code_def Let_def split: list.splits option.splits if_splits)
      next
        case (Some cand)
        note f = find_candidate_by_code_Some[OF Some]
        from Some True \<open>?c0 = Some c\<close> assms f show ?thesis
          by (auto simp: resolve_item_code_def Let_def split: list.splits option.splits if_splits)
      qed
    qed
  qed
qed

lemma merge_one_item_code:
  assumes "item_code (fst (merge_one_item B line llm cs valid t1 t2 evs)) = Some code"
  shows "code \<in> valid \<and> (\<exists>c \<in> set cs. candidate_code c = Some code)"
proof -
  obtain ic sel nr fr evs' where r: "resolve_item_code line llm cs valid = (ic, sel, nr, fr, evs')"
    by (metis prod_cases5)
  with assms have "ic = Some code"
    by (simp add: merge_one_item_def Let_def split: prod.splits)
  with r resolve_item_code_sound show ?thesis by blast
qed

lemma merge_one_item_line_index:
  "ni_line_index (fst (merge_one_item B line llm cs valid t1 t2 evs)) = rl_line_index line"
  by (simp add: merge_one_item_def Let_def split: prod.splits)

text \<open>
  Claim C1. Every item of the order returned by \<open>merge_and_validate\<close> has no item code,
  or a code that belongs to the catalog id set derived by \<open>_catalog_ids\<close> and is the
  \<open>candidate_code\<close> of one of the candidates of the item's own line,
  \<open>candidates.get(line_index, [])\<close>.
\<close>

theorem item_code_in_catalog_and_line_candidates:
  "\<forall>item \<in> set (items (merge_and_validate B order_raw candidates sr menu t1 t2 t3)).
     item_code item = None \<or>
     (\<exists>code. item_code item = Some code \<and> code \<in> catalog_ids B menu candidates \<and>
        (\<exists>cand \<in> set (candidates_get candidates (ni_line_index item)).
           candidate_code cand = Some code))"
proof
  fix item
  assume "item \<in> set (items (merge_and_validate B order_raw candidates sr menu t1 t2 t3))"
  then obtain line by_line where
    it: "item = fst (item_of B by_line candidates (catalog_ids B menu candidates)
                  (normalize_threshold t1) (normalize_threshold t2) line)"
    unfolding items_merge_and_validate by auto
  have li: "ni_line_index item = rl_line_index line"
    unfolding it item_of_def by (rule merge_one_item_line_index)
  show "item_code item = None \<or>
     (\<exists>code. item_code item = Some code \<and> code \<in> catalog_ids B menu candidates \<and>
        (\<exists>cand \<in> set (candidates_get candidates (ni_line_index item)).
           candidate_code cand = Some code))"
  proof (cases "item_code item")
    case None
    then show ?thesis by simp
  next
    case (Some code)
    from Some have "code \<in> catalog_ids B menu candidates \<and>
        (\<exists>c \<in> set (candidates_get candidates (rl_line_index line)). candidate_code c = Some code)"
      unfolding it item_of_def by (rule merge_one_item_code)
    with Some li show ?thesis by simp
  qed
qed

text \<open>On the sample order the LLM's code \<open>I999\<close> for line 1 is outside the catalog; the
  item falls back to the line's top candidate \<open>I002\<close>, which the theorem places in the
  catalog and among the candidates of line 1.\<close>

theorem item_code_in_catalog_and_line_candidates_witness:
  "item_code (items ex_merged ! 1) = Some ''I002'' \<and>
   ''I002'' \<in> catalog_ids ex_builtins ex_catalog ex_candidates \<and>
   (\<exists>cand \<in> set (candidates_get ex_candidates (ni_line_index (items ex_merged ! 1))).
      candidate_code cand = Some ''I002'')"
proof -
  have m: "items ex_merged ! 1 \<in> set (items ex_merged)"
    by code_simp
  have c: "item_code (items ex_merged ! 1) = Some ''I002''"
    by code_simp
  from item_code_in_catalog_and_line_candidates
         [of ex_builtins ex_order ex_candidates ex_structured_result ex_catalog None None None]
       m c
  show ?thesis
    unfolding ex_merged_def by fastforce
qed

subsection \<open>The order's review flag\<close>

text \<open>
  Claim C4. The \<open>overall_needs_review\<close> flag of the returned order is the disjunction of
  the parser order's \<open>needs_review\<close>, of some returned item's \<open>needs_review\<close> and of some
  returned group's \<open>needs_review\<close>.
\<close>

theorem overall_needs_review_is_disjunction:
  "overall_needs_review (merge_and_validate B order_raw candidates sr menu t1 t2 t3) =
     (or_needs_review order_raw
      \<or> (\<exists>item \<in> set (items (merge_and_validate B order_raw candidates sr menu t1 t2 t3)).
            ni_needs_review item)
      \<or> (\<exists>g \<in> set (groups (merge_and_validate B order_raw candidates sr menu t1 t2 t3)).
            gr_needs_review g))"
  by (simp add: merge_and_validate_def Let_def list_ex_iff split: prod.splits)

text \<open>On the sample order the parser raised no flag, and the second group, emptied by the
  conflict with the first, carries one: the order is flagged.\<close>

theorem overall_needs_review_is_disjunction_witness:
  "\<not> or_needs_review ex_order \<and> gr_needs_review (groups ex_merged ! 1) \<and>
   overall_needs_review ex_merged"
proof -
  have a: "\<not> or_needs_review ex_order"
    by code_simp
  have m: "groups ex_merged ! 1 \<in> set (groups ex_merged)"
    by code_simp
  have g: "gr_needs_review (groups ex_merged ! 1)"
    by code_simp
  from overall_needs_review_is_disjunction
         [of ex_builtins ex_order ex_candidates ex_structured_result ex_catalog None None None]
       m g
  have "overall_needs_review ex_merged"
    unfolding ex_merged_def by blast
  with a g show ?thesis by simp
qed

subsection \<open>Quantities\<close>

lemma collect_loop_get:
  "by_line_get (fst (collect_loop valid raws (by_line, evs))) i =
     (case by_line i of
        Some r \<Rightarrow> r
      | None \<Rightarrow>
          if i \<in> valid then
            (case List.find (\<lambda>raw. as_int (read raw ''line_index'' PNone) = Some i) raws of
               Some r \<Rightarrow> r | None \<Rightarrow> PNone)
          else PNone)"
proof (induction raws arbitrary: by_line evs)
  case Nil
  show ?case by (simp add: by_line_get_def split: option.splits)
next
  case (Cons raw rest)
  show ?case
    by (cases "as_int (read raw ''line_index'' PNone)")
       (auto simp: Cons.IH Let_def split: option.splits)
qed

lemma collect_llm_items_get:
  "i \<in> valid \<Longrightarrow>
   by_line_get (fst (collect_llm_items (structured_get sr ''items'') valid evs)) i =
     first_llm_item sr i"
  by (cases "structured_get sr ''items''")
     (simp_all add: first_llm_item_def collect_loop_get, simp_all add: by_line_get_def)

lemma read_PNone [simp]: "read PNone key d = d"
  by simp

lemma merge_qty_bool:
  assumes "read llm ''qty'' PNone = PBool b"
  shows "merge_qty line llm =
           (rl_qty line, True,
            [audit ''qty_invalid'' ''LLM qty is not an integer; raw qty is kept''
               (Some (rl_line_index line)) [(''qty'', PBool b)]]
            @ (if rl_qty line \<le> 0
               then [audit ''qty_invalid'' ''Final qty must be positive integer''
                       (Some (rl_line_index line)) [(''qty'', PInt (rl_qty line))]]
               else []))"
proof -
  from assms have "llm \<noteq> PNone" by auto
  with assms show ?thesis by (simp add: merge_qty_def)
qed

lemma merge_qty_changed:
  assumes "fst (merge_qty line llm) \<noteq> rl_qty line"
  shows "\<exists>n. 0 < n \<and> read llm ''qty'' PNone = PInt n \<and> fst (merge_qty line llm) = n"
  using assms
  by (cases "read llm ''qty'' PNone")
     (auto simp: merge_qty_def Let_def split: if_splits)

lemma merge_qty_accepts:
  assumes "read llm ''qty'' PNone = PInt n" "0 < n"
  shows "fst (merge_qty line llm) = n"
proof -
  from assms(1) have "llm \<noteq> PNone" by auto
  with assms show ?thesis by (simp add: merge_qty_def)
qed

lemma merge_one_item_qty:
  "ni_qty (fst (merge_one_item B line llm cs valid t1 t2 evs)) = fst (merge_qty line llm)"
  by (simp add: merge_one_item_def Let_def split: prod.splits)

lemma merge_one_item_review_qty:
  "fst (snd (merge_qty line llm)) \<Longrightarrow>
   ni_needs_review (fst (merge_one_item B line llm cs valid t1 t2 evs))"
  by (auto simp: merge_one_item_def Let_def split: prod.splits)

lemma merge_one_item_events_qty:
  "set (snd (snd (merge_qty line llm))) \<subseteq> set (snd (merge_one_item B line llm cs valid t1 t2 evs))"
  by (auto simp: merge_one_item_def Let_def split: prod.splits)

lemma audit_events_merge_and_validate:
  assumes "line \<in> set (or_lines order_raw)"
  shows "set (snd (item_of B
            (fst (collect_llm_items (structured_get sr ''items'')
                    (set (map rl_line_index (or_lines order_raw)))
                    (copy_audit_events (structured_get sr ''audit_events''))))
            candidates (catalog_ids B menu candidates)
            (normalize_threshold t1) (normalize_threshold t2) line))
         \<subseteq> set (audit_events (merge_and_validate B order_raw candidates sr menu t1 t2 t3))"
proof -
  let ?cl = "collect_llm_items (structured_get sr ''items'')
                    (set (map rl_line_index (or_lines order_raw)))
                    (copy_audit_events (structured_get sr ''audit_events''))"
  let ?f = "\<lambda>line. snd (item_of B (fst ?cl) candidates (catalog_ids B menu candidates)
            (normalize_threshold t1) (normalize_threshold t2) line)"
  let ?evs2 = "snd ?cl @ concat (map ?f (or_lines order_raw))"
  have a: "audit_events (merge_and_validate B order_raw candidates sr menu t1 t2 t3) =
        snd (merge_groups B (structured_get sr ''groups'') (set (map rl_line_index (or_lines order_raw)))
               (normalize_threshold t3) ?evs2)"
    by (simp add: merge_and_validate_def Let_def merge_items_eq split: prod.splits)
  have "set (?f line) \<subseteq> set ?evs2"
    using assms by auto
  also have "\<dots> \<subseteq> set (snd (merge_groups B (structured_get sr ''groups'')
               (set (map rl_line_index (or_lines order_raw))) (normalize_threshold t3) ?evs2))"
    by (rule merge_groups_events)
  finally show ?thesis unfolding a .
qed

text \<open>
  Claim C10. In \<open>merge_and_validate\<close>, when the LLM item kept for a parser line carries a
  boolean \<open>qty\<close>, the returned item keeps the parser line's quantity, is flagged
  \<open>needs_review\<close>, and a \<open>qty_invalid\<close> audit event for the line, recording the boolean,
  is among the returned audit events; whenever a returned item's quantity differs from
  the parser line's, the LLM quantity is a non-boolean integer greater than zero and the
  item carries it; and a non-boolean LLM integer greater than zero is always taken as the
  item's quantity.
\<close>

theorem boolean_qty_never_accepted:
  fixes B order_raw candidates sr menu t1 t2 t3 i
  assumes i: "i < length (or_lines order_raw)"
  defines "line \<equiv> or_lines order_raw ! i"
  defines "llm_item \<equiv> first_llm_item sr (rl_line_index line)"
  defines "R \<equiv> merge_and_validate B order_raw candidates sr menu t1 t2 t3"
  shows "(\<forall>b. read llm_item ''qty'' PNone = PBool b \<longrightarrow>
            ni_qty (items R ! i) = rl_qty line \<and> ni_needs_review (items R ! i) \<and>
            (\<exists>e \<in> set (audit_events R).
               event_type e = ''qty_invalid'' \<and> ev_line_index e = Some (rl_line_index line) \<and>
               ev_metadata e = [(''qty'', PBool b)]))
         \<and> (ni_qty (items R ! i) \<noteq> rl_qty line \<longrightarrow>
              (\<exists>n. 0 < n \<and> read llm_item ''qty'' PNone = PInt n \<and> ni_qty (items R ! i) = n))
         \<and> (\<forall>n. read llm_item ''qty'' PNone = PInt n \<and> 0 < n \<longrightarrow> ni_qty (items R ! i) = n)"
proof -
  let ?valid = "set (map rl_line_index (or_lines order_raw))"
  let ?by = "fst (collect_llm_items (structured_get sr ''items'') ?valid
                    (copy_audit_events (structured_get sr ''audit_events'')))"
  let ?io = "item_of B ?by candidates (catalog_ids B menu candidates)
            (normalize_threshold t1) (normalize_threshold t2) line"
  have mem: "line \<in> set (or_lines order_raw)"
    using i by (simp add: line_def)
  then have v: "rl_line_index line \<in> ?valid" by simp
  have llm: "by_line_get ?by (rl_line_index line) = llm_item"
    unfolding llm_item_def by (rule collect_llm_items_get[OF v])
  have item: "items R ! i = fst ?io"
    using i by (simp add: R_def items_merge_and_validate line_def)
  have io: "?io = merge_one_item B line llm_item (candidates_get candidates (rl_line_index line))
                    (catalog_ids B menu candidates) (normalize_threshold t1) (normalize_threshold t2) []"
    by (simp only: item_of_def llm)
  have q: "ni_qty (items R ! i) = fst (merge_qty line llm_item)"
    unfolding item io by (rule merge_one_item_qty)
  have evs: "set (snd (snd (merge_qty line llm_item))) \<subseteq> set (audit_events R)"
    using merge_one_item_events_qty[of line llm_item B "candidates_get candidates (rl_line_index line)"
              "catalog_ids B menu candidates" "normalize_threshold t1" "normalize_threshold t2" "[]"]
          audit_events_merge_and_validate[OF mem, of B sr candidates menu t1 t2 t3]
    unfolding R_def io[symmetric] by blast
  have part1: "ni_qty (items R ! i) = rl_qty line \<and> ni_needs_review (items R ! i) \<and>
            (\<exists>e \<in> set (audit_events R).
               event_type e = ''qty_invalid'' \<and> ev_line_index e = Some (rl_line_index line) \<and>
               ev_metadata e = [(''qty'', PBool b)])"
    if b: "read llm_item ''qty'' PNone = PBool b" for b
  proof -
    note mq = merge_qty_bool[OF b, of line]
    have 1: "ni_qty (items R ! i) = rl_qty line"
      by (simp add: q mq)
    have 2: "ni_needs_review (items R ! i)"
      unfolding item io by (rule merge_one_item_review_qty) (simp add: mq)
    have "audit ''qty_invalid'' ''LLM qty is not an integer; raw qty is kept''
               (Some (rl_line_index line)) [(''qty'', PBool b)] \<in> set (audit_events R)"
      using evs by (simp add: mq)
    then have 3: "\<exists>e \<in> set (audit_events R).
               event_type e = ''qty_invalid'' \<and> ev_line_index e = Some (rl_line_index line) \<and>
               ev_metadata e = [(''qty'', PBool b)]"
      by (rule rev_bexI) (simp add: audit_def)
    from 1 2 3 show ?thesis by blast
  qed
  have part2: "\<exists>n. 0 < n \<and> read llm_item ''qty'' PNone = PInt n \<and> ni_qty (items R ! i) = n"
    if "ni_qty (items R ! i) \<noteq> rl_qty line"
    using that merge_qty_changed[of line llm_item] unfolding q by blast
  have part3: "ni_qty (items R ! i) = n"
    if "read llm_item ''qty'' PNone = PInt n \<and> 0 < n" for n
    using that merge_qty_accepts[of llm_item n line] unfolding q by blast
  from part1 part2 part3 show ?thesis by blast
qed

text \<open>On the sample order the LLM item of line 0 has \<open>qty = True\<close>: the item keeps the
  parser's quantity 2. When the LLM answers 5 instead, the item carries 5.\<close>

theorem boolean_qty_never_accepted_witness:
  "ni_qty (items ex_merged ! 0) = 2 \<and> ni_needs_review (items ex_merged ! 0) \<and>
   (\<exists>e \<in> set (audit_events ex_merged).
      event_type e = ''qty_invalid'' \<and> ev_line_index e = Some 0 \<and>
      ev_metadata e = [(''qty'', PBool True)]) \<and>
   ni_qty (items ex_merged_qty ! 0) = 5"
proof -
  have i: "0 < length (or_lines ex_order)"
    by code_simp
  have b: "read (first_llm_item ex_structured_result (rl_line_index (or_lines ex_order ! 0)))
             ''qty'' PNone = PBool True"
    by code_simp
  have n: "read (first_llm_item ex_structured_qty (rl_line_index (or_lines ex_order ! 0)))
             ''qty'' PNone = PInt 5"
    by code_simp
  have q: "rl_qty (or_lines ex_order ! 0) = 2" and li: "rl_line_index (or_lines ex_order ! 0) = 0"
    by code_simp+
  from boolean_qty_never_accepted
         [OF i, where B = ex_builtins and candidates = ex_candidates and sr = ex_structured_result
            and menu = ex_catalog and ?t1.0 = None and ?t2.0 = None and ?t3.0 = None] b
  have 1: "ni_qty (items ex_merged ! 0) = 2 \<and> ni_needs_review (items ex_merged ! 0) \<and>
   (\<exists>e \<in> set (audit_events ex_merged).
      event_type e = ''qty_invalid'' \<and> ev_line_index e = Some 0 \<and>
      ev_metadata e = [(''qty'', PBool True)])"
    unfolding ex_merged_def q li by blast
  from boolean_qty_never_accepted
         [OF i, where B = ex_builtins and candidates = ex_candidates and sr = ex_structured_qty
            and menu = ex_catalog and ?t1.0 = None and ?t2.0 = None and ?t3.0 = None] n
  have 2: "ni_qty (items ex_merged_qty ! 0) = 5"
    unfolding ex_merged_qty_def by simp
  from 1 2 show ?thesis by blast
qed

subsection \<open>Groups\<close>

lemma clean_indices_inv:
  "seen = set cleaned \<Longrightarrow> distinct cleaned \<Longrightarrow> set cleaned \<subseteq> valid \<Longrightarrow>
   distinct (fst (clean_indices valid vs seen cleaned oor dup)) \<and>
   set (fst (clean_indices valid vs seen cleaned oor dup)) \<subseteq> valid"
proof (induction vs arbitrary: seen cleaned oor dup)
  case Nil
  then show ?case by simp
next
  case (Cons v vs)
  show ?case
  proof (cases "as_int v")
    case None
    with Cons show ?thesis by simp
  next
    case (Some i)
    show ?thesis
    proof (cases "i \<in> valid \<and> i \<notin> seen")
      case True
      have "distinct (fst (clean_indices valid vs (insert i seen) (cleaned @ [i]) oor dup)) \<and>
            set (fst (clean_indices valid vs (insert i seen) (cleaned @ [i]) oor dup)) \<subseteq> valid"
        by (rule Cons.IH) (use True Cons.prems in auto)
      with True Some show ?thesis by simp
    next
      case False
      with Some Cons show ?thesis by auto
    qed
  qed
qed

lemma clean_indices_subseq:
  "subseq cleaned pre \<Longrightarrow>
   subseq (fst (clean_indices valid vs seen cleaned oor dup)) (pre @ List.map_filter as_int vs)"
proof (induction vs arbitrary: seen cleaned oor dup pre)
  case Nil
  then show ?case by (simp add: map_filter_simps)
next
  case (Cons v vs)
  show ?case
  proof (cases "as_int v")
    case None
    with Cons show ?thesis by (simp add: map_filter_simps)
  next
    case (Some i)
    have s1: "subseq cleaned (pre @ [i])"
      using Cons.prems by (rule subseq_rev_drop_many)
    have s2: "subseq (cleaned @ [i]) (pre @ [i])"
      using Cons.prems by (simp add: list_emb_append_mono)
    from Cons.IH[OF s1] Cons.IH[OF s2] Some show ?thesis
      by (simp add: map_filter_simps)
  qed
qed

lemma cleaned_of_props:
  "distinct (cleaned_of valid raw) \<and> set (cleaned_of valid raw) \<subseteq> valid \<and>
   subseq (cleaned_of valid raw) (List.map_filter as_int (raw_indices_of raw))"
  using clean_indices_inv[of "{}" "[]" valid "raw_indices_of raw" False False]
        clean_indices_subseq[of "[]" "[]" valid "raw_indices_of raw" "{}" False False]
  by (simp add: cleaned_of_def)

lemma claim_indices_eq:
  "distinct cs \<Longrightarrow>
   fst (claim_indices gid cs occ final conflict) = final @ filter (\<lambda>i. occ i = None) cs \<and>
   dom (fst (snd (claim_indices gid cs occ final conflict))) = dom occ \<union> set cs"
proof (induction cs arbitrary: occ final conflict)
  case Nil
  show ?case by simp
next
  case (Cons c cs)
  then have d: "distinct cs" and n: "c \<notin> set cs" by auto
  show ?case
  proof (cases "occ c")
    case None
    have f: "filter (\<lambda>i. (occ(c \<mapsto> gid)) i = None) cs = filter (\<lambda>i. occ i = None) cs"
      using n by (intro filter_cong) auto
    have ih: "fst (claim_indices gid cs (occ(c \<mapsto> gid)) (final @ [c]) conflict) =
                (final @ [c]) @ filter (\<lambda>i. occ i = None) cs"
      and ihd: "dom (fst (snd (claim_indices gid cs (occ(c \<mapsto> gid)) (final @ [c]) conflict))) =
                dom (occ(c \<mapsto> gid)) \<union> set cs"
      using Cons.IH[OF d, of "occ(c \<mapsto> gid)" "final @ [c]" conflict] unfolding f by blast+
    have step: "claim_indices gid (c # cs) occ final conflict =
                claim_indices gid cs (occ(c \<mapsto> gid)) (final @ [c]) conflict"
      using None by simp
    show ?thesis
      unfolding step ih ihd using None by simp
  next
    case (Some g)
    have step: "claim_indices gid (c # cs) occ final conflict =
                claim_indices gid cs occ final True"
      using Some by simp
    from Cons.IH[OF d, of occ final True] Some show ?thesis
      unfolding step by auto
  qed
qed

lemma merge_group_claim:
  "\<exists>gid. line_indices (fst (merge_group B valid thr idx raw occ)) =
            fst (claim_indices gid (cleaned_of valid raw) occ [] False) \<and>
         fst (snd (merge_group B valid thr idx raw occ)) =
            fst (snd (claim_indices gid (cleaned_of valid raw) occ [] False))"
  unfolding merge_group_def Let_def case_prod_beta cleaned_of_def raw_indices_of_def
  apply (simp only: fst_conv snd_conv GroupResult.simps)
  apply (rule exI)
  apply (rule conjI)
   apply (rule refl)+
  done

lemma merge_group_indices:
  "line_indices (fst (merge_group B valid thr idx raw occ)) =
     filter (\<lambda>i. i \<notin> dom occ) (cleaned_of valid raw)"
  "dom (fst (snd (merge_group B valid thr idx raw occ))) = dom occ \<union> set (cleaned_of valid raw)"
proof -
  have d: "distinct (cleaned_of valid raw)" using cleaned_of_props[of valid raw] by simp
  have dn: "(\<lambda>i. i \<notin> dom occ) = (\<lambda>i. occ i = None)" by (auto simp: dom_def)
  obtain gid where
    g1: "line_indices (fst (merge_group B valid thr idx raw occ)) =
            fst (claim_indices gid (cleaned_of valid raw) occ [] False)" and
    g2: "fst (snd (merge_group B valid thr idx raw occ)) =
            fst (snd (claim_indices gid (cleaned_of valid raw) occ [] False))"
    using merge_group_claim by blast
  note ce = claim_indices_eq[OF d, of gid occ "[]" False]
  show "line_indices (fst (merge_group B valid thr idx raw occ)) =
     filter (\<lambda>i. i \<notin> dom occ) (cleaned_of valid raw)"
    unfolding g1 dn using ce by simp
  show "dom (fst (snd (merge_group B valid thr idx raw occ))) = dom occ \<union> set (cleaned_of valid raw)"
    unfolding g2 using ce by simp
qed

lemma merge_groups_loop_indices:
  "map line_indices (fst (merge_groups_loop B valid thr idx raws occ evs)) =
     claim_all (dom occ) (map (cleaned_of valid) raws)"
proof (induction raws arbitrary: idx occ evs)
  case Nil
  show ?case by simp
next
  case (Cons raw rest)
  obtain g occ' evs_g where mg: "merge_group B valid thr idx raw occ = (g, occ', evs_g)"
    by (metis prod_cases3)
  from merge_group_indices[of B valid thr idx raw occ] mg
  have g: "line_indices g = filter (\<lambda>i. i \<notin> dom occ) (cleaned_of valid raw)"
    and o: "dom occ' = dom occ \<union> set (cleaned_of valid raw)" by simp_all
  show ?case
    using Cons.IH[of "idx + 1" occ' "evs @ evs_g"] mg g o
    by (auto simp: Let_def split: prod.splits)
qed

lemma claim_all_length [simp]: "length (claim_all S cs) = length cs"
  by (induction cs arbitrary: S) auto

lemma all_less_Suc_conv: "(\<forall>j<Suc k. P j) \<longleftrightarrow> P 0 \<and> (\<forall>j<k. P (Suc j))"
  by (metis less_Suc_eq_0_disj Suc_less_eq zero_less_Suc)

lemma claim_all_nth:
  "k < length cs \<Longrightarrow>
   claim_all S cs ! k =
     filter (\<lambda>i. i \<notin> S \<and> (\<forall>j<k. i \<notin> set (claim_all S cs ! j))) (cs ! k)"
proof (induction cs arbitrary: S k)
  case Nil
  then show ?case by simp
next
  case (Cons c cs)
  show ?case
  proof (cases k)
    case 0
    then show ?thesis by simp
  next
    case (Suc k')
    with Cons.prems have k': "k' < length cs" by simp
    have "claim_all (S \<union> set c) cs ! k' =
            filter (\<lambda>i. i \<notin> S \<union> set c \<and> (\<forall>j<k'. i \<notin> set (claim_all (S \<union> set c) cs ! j))) (cs ! k')"
      by (rule Cons.IH[OF k'])
    also have "\<dots> = filter (\<lambda>i. i \<notin> S \<and> (\<forall>j<Suc k'. i \<notin> set (claim_all S (c # cs) ! j))) (cs ! k')"
      by (intro filter_cong refl) (auto simp: all_less_Suc_conv)
    finally show ?thesis using Suc by simp
  qed
qed

lemma claim_all_disjoint:
  assumes "i < j" "j < length cs"
  shows "set (claim_all S cs ! i) \<inter> set (claim_all S cs ! j) = {}"
proof -
  have "claim_all S cs ! j =
     filter (\<lambda>x. x \<notin> S \<and> (\<forall>j'<j. x \<notin> set (claim_all S cs ! j'))) (cs ! j)"
    by (rule claim_all_nth[OF assms(2)])
  then have "\<forall>x \<in> set (claim_all S cs ! j). \<forall>j'<j. x \<notin> set (claim_all S cs ! j')"
    by (metis (mono_tags, lifting) mem_Collect_eq set_filter)
  with assms(1) show ?thesis by blast
qed


lemma groups_merge_and_validate:
  "\<exists>evs. groups (merge_and_validate B order_raw candidates sr menu t1 t2 t3) =
     fst (merge_groups_loop B (set (map rl_line_index (or_lines order_raw))) (normalize_threshold t3) 0
            (raw_groups_of sr) Map.empty evs)"
  by (cases "structured_get sr ''groups''")
     (auto simp: merge_and_validate_def Let_def raw_groups_of_def split: prod.splits, metis fst_conv)

lemma groups_indices:
  "map line_indices (groups (merge_and_validate B order_raw candidates sr menu t1 t2 t3)) =
     claim_all {} (map (cleaned_of (set (map rl_line_index (or_lines order_raw)))) (raw_groups_of sr))"
proof -
  obtain evs where "groups (merge_and_validate B order_raw candidates sr menu t1 t2 t3) =
     fst (merge_groups_loop B (set (map rl_line_index (or_lines order_raw))) (normalize_threshold t3) 0
            (raw_groups_of sr) Map.empty evs)"
    using groups_merge_and_validate by blast
  then show ?thesis
    by (simp only: merge_groups_loop_indices dom_empty)
qed

lemma merge_group_too_few:
  "length (line_indices (fst (merge_group B valid thr idx raw occ))) < 2 \<Longrightarrow>
   gr_needs_review (fst (merge_group B valid thr idx raw occ))"
  unfolding merge_group_def Let_def case_prod_beta
  by (simp only: fst_conv snd_conv GroupResult.simps) blast

lemma merge_groups_loop_too_few:
  "\<forall>g \<in> set (fst (merge_groups_loop B valid thr idx raws occ evs)).
     length (line_indices g) < 2 \<longrightarrow> gr_needs_review g"
proof (induction raws arbitrary: idx occ evs)
  case Nil
  show ?case by simp
next
  case (Cons raw rest)
  obtain g occ' evs_g where mg: "merge_group B valid thr idx raw occ = (g, occ', evs_g)"
    by (metis prod_cases3)
  have "length (line_indices g) < 2 \<longrightarrow> gr_needs_review g"
    using merge_group_too_few[of B valid thr idx raw occ] mg by simp
  with Cons.IH[of "idx + 1" occ' "evs @ evs_g"] mg show ?case
    by (auto simp: Let_def split: prod.splits)
qed

text \<open>
  Claim C2. The groups returned by \<open>merge_and_validate\<close> answer the raw LLM groups one
  for one; each keeps, of the indices its raw group lists (cleaned of non-integers,
  non-parser indices and repetitions), exactly those that no earlier returned group holds;
  and no two returned groups share a line index.
\<close>

theorem groups_share_no_line_index:
  fixes B order_raw candidates sr menu t1 t2 t3
  defines "gs \<equiv> groups (merge_and_validate B order_raw candidates sr menu t1 t2 t3)"
  defines "valid_line_indices \<equiv> set (map rl_line_index (or_lines order_raw))"
  shows "length gs = length (raw_groups_of sr) \<and>
         (\<forall>k<length gs. line_indices (gs ! k) =
              filter (\<lambda>i. \<forall>j<k. i \<notin> set (line_indices (gs ! j)))
                (cleaned_of valid_line_indices (raw_groups_of sr ! k))) \<and>
         (\<forall>i j. i < j \<and> j < length gs \<longrightarrow>
              set (line_indices (gs ! i)) \<inter> set (line_indices (gs ! j)) = {})"
proof -
  let ?cs = "map (cleaned_of valid_line_indices) (raw_groups_of sr)"
  have m: "map line_indices gs = claim_all {} ?cs"
    unfolding gs_def valid_line_indices_def by (rule groups_indices)
  have len: "length gs = length (raw_groups_of sr)"
    using arg_cong[OF m, of length] by simp
  have nth: "line_indices (gs ! k) = claim_all {} ?cs ! k" if "k < length gs" for k
    using that arg_cong[OF m, of "\<lambda>xs. xs ! k"] by simp
  have a: "line_indices (gs ! k) =
              filter (\<lambda>i. \<forall>j<k. i \<notin> set (line_indices (gs ! j)))
                (cleaned_of valid_line_indices (raw_groups_of sr ! k))"
    if k: "k < length gs" for k
  proof -
    have kc: "k < length ?cs" using k len by simp
    have "line_indices (gs ! k) =
            filter (\<lambda>i. i \<notin> {} \<and> (\<forall>j<k. i \<notin> set (claim_all {} ?cs ! j))) (?cs ! k)"
      unfolding nth[OF k] by (rule claim_all_nth[OF kc])
    also have "\<dots> = filter (\<lambda>i. \<forall>j<k. i \<notin> set (line_indices (gs ! j))) (?cs ! k)"
      using k nth by (intro filter_cong refl) auto
    finally show ?thesis using k len by simp
  qed
  have b: "set (line_indices (gs ! i)) \<inter> set (line_indices (gs ! j)) = {}"
    if "i < j" "j < length gs" for i j
  proof -
    have "j < length ?cs" using that len by simp
    from claim_all_disjoint[OF that(1) this, of "{}"] show ?thesis
      using that nth by simp
  qed
  from len a b show ?thesis by blast
qed

text \<open>
  Claim C3, as amended. Every returned group's \<open>line_indices\<close> has no duplicate, holds only
  parser line indices, and keeps them in the order in which the raw group lists them (it
  is not sorted); a group left with fewer than two indices is still returned, flagged
  \<open>needs_review\<close>.
\<close>

theorem group_line_indices_distinct_in_listed_order:
  fixes B order_raw candidates sr menu t1 t2 t3
  defines "gs \<equiv> groups (merge_and_validate B order_raw candidates sr menu t1 t2 t3)"
  defines "valid_line_indices \<equiv> set (map rl_line_index (or_lines order_raw))"
  shows "\<forall>k<length gs.
           distinct (line_indices (gs ! k)) \<and>
           set (line_indices (gs ! k)) \<subseteq> valid_line_indices \<and>
           subseq (line_indices (gs ! k)) (List.map_filter as_int (raw_indices_of (raw_groups_of sr ! k))) \<and>
           (length (line_indices (gs ! k)) < 2 \<longrightarrow> gr_needs_review (gs ! k))"
proof (intro allI impI)
  fix k
  assume k: "k < length gs"
  let ?cs = "map (cleaned_of valid_line_indices) (raw_groups_of sr)"
  let ?c = "cleaned_of valid_line_indices (raw_groups_of sr ! k)"
  have m: "map line_indices gs = claim_all {} ?cs"
    unfolding gs_def valid_line_indices_def by (rule groups_indices)
  have len: "length gs = length (raw_groups_of sr)"
    using arg_cong[OF m, of length] by simp
  have kc: "k < length ?cs" using k len by simp
  have "line_indices (gs ! k) = claim_all {} ?cs ! k"
    using k arg_cong[OF m, of "\<lambda>xs. xs ! k"] by simp
  also have "\<dots> = filter (\<lambda>i. i \<notin> {} \<and> (\<forall>j<k. i \<notin> set (claim_all {} ?cs ! j))) (?cs ! k)"
    by (rule claim_all_nth[OF kc])
  finally obtain P where f: "line_indices (gs ! k) = filter P ?c"
    using k len by simp
  note p = cleaned_of_props[of valid_line_indices "raw_groups_of sr ! k"]
  have 1: "distinct (line_indices (gs ! k))"
    unfolding f using p by simp
  have 2: "set (line_indices (gs ! k)) \<subseteq> valid_line_indices"
    unfolding f using p by auto
  have "subseq (filter P ?c) ?c" by simp
  with p have 3: "subseq (line_indices (gs ! k))
                    (List.map_filter as_int (raw_indices_of (raw_groups_of sr ! k)))"
    unfolding f using subseq_order.order_trans by blast
  obtain evs where "gs = fst (merge_groups_loop B valid_line_indices (normalize_threshold t3) 0
            (raw_groups_of sr) Map.empty evs)"
    unfolding gs_def valid_line_indices_def using groups_merge_and_validate by blast
  with merge_groups_loop_too_few[of B valid_line_indices "normalize_threshold t3" 0 "raw_groups_of sr" Map.empty evs] k
  have 4: "length (line_indices (gs ! k)) < 2 \<longrightarrow> gr_needs_review (gs ! k)"
    by simp
  from 1 2 3 4 show "distinct (line_indices (gs ! k)) \<and>
           set (line_indices (gs ! k)) \<subseteq> valid_line_indices \<and>
           subseq (line_indices (gs ! k)) (List.map_filter as_int (raw_indices_of (raw_groups_of sr ! k))) \<and>
           (length (line_indices (gs ! k)) < 2 \<longrightarrow> gr_needs_review (gs ! k))"
    by blast
qed

text \<open>Claim C3 as stated fails on the sample order: the first group keeps \<open>[1, 0]\<close>, which is
  not ascending, and the second group is returned with no index at all.\<close>

theorem group_line_indices_sorted_counterexample:
  "line_indices (groups ex_merged ! 0) = [1, 0] \<and>
   \<not> sorted (line_indices (groups ex_merged ! 0)) \<and>
   line_indices (groups ex_merged ! 1) = [] \<and>
   \<not> 2 \<le> length (line_indices (groups ex_merged ! 1))"
  by code_simp

theorem groups_share_no_line_index_witness:
  "length (groups ex_merged) = 2 \<and>
   line_indices (groups ex_merged ! 0) = [1, 0] \<and>
   line_indices (groups ex_merged ! 1) = [] \<and>
   set (line_indices (groups ex_merged ! 0)) \<inter> set (line_indices (groups ex_merged ! 1)) = {}"
proof -
  have l: "length (groups ex_merged) = 2"
    by code_simp
  have a: "line_indices (groups ex_merged ! 0) = [1, 0]"
    by code_simp
  have b: "line_indices (groups ex_merged ! 1) = []"
    by code_simp
  from groups_share_no_line_index
         [of ex_builtins ex_order ex_candidates ex_structured_result ex_catalog None None None]
  have "\<forall>i j. i < j \<and> j < length (groups ex_merged) \<longrightarrow>
          set (line_indices (groups ex_merged ! i)) \<inter> set (line_indices (groups ex_merged ! j)) = {}"
    unfolding ex_merged_def by blast
  then have "set (line_indices (groups ex_merged ! 0)) \<inter> set (line_indices (groups ex_merged ! 1)) = {}"
    using l by simp
  with l a b show ?thesis by blast
qed

theorem group_line_indices_distinct_in_listed_order_witness:
  "1 < length (groups ex_merged) \<and>
   length (line_indices (groups ex_merged ! 1)) < 2 \<and>
   gr_needs_review (groups ex_merged ! 1) \<and>
   distinct (line_indices (groups ex_merged ! 1))"
proof -
  have l: "1 < length (groups ex_merged)"
    by code_simp
  have a: "length (line_indices (groups ex_merged ! 1)) < 2"
    by code_simp
  from group_line_indices_distinct_in_listed_order
         [of ex_builtins ex_order ex_candidates ex_structured_result ex_catalog None None None]
       l a
  show ?thesis
    unfolding ex_merged_def by blast
qed

section \<open>Properties of the cache\<close>

subsection \<open>strip\<close>

lemma dropWhile_rev_prefix:
  assumes "xs = [] \<or> \<not> P (hd xs)"
  shows "dropWhile P (rev (dropWhile P (rev xs))) = rev (dropWhile P (rev xs))"
proof (cases "rev (dropWhile P (rev xs))")
  case Nil
  then show ?thesis by (simp only: dropWhile.simps)
next
  case (Cons b bs)
  have "xs = rev (dropWhile P (rev xs)) @ rev (takeWhile P (rev xs))"
    by (metis rev_append rev_rev_ident takeWhile_dropWhile_id)
  with Cons have "xs = b # bs @ rev (takeWhile P (rev xs))" by simp
  then have "hd xs = b" and "xs \<noteq> []"
    by (metis list.sel(1)) (metis \<open>xs = b # bs @ rev (takeWhile P (rev xs))\<close> list.distinct(1))
  with assms have "\<not> P b" by auto
  with Cons show ?thesis by simp
qed

lemma strip_idem [simp]: "strip (strip s) = strip s"
proof -
  let ?a = "dropWhile py_isspace s"
  have h: "?a = [] \<or> \<not> py_isspace (hd ?a)"
    using hd_dropWhile by blast
  have "dropWhile py_isspace (strip s) = strip s"
    unfolding strip_def by (rule dropWhile_rev_prefix[of "dropWhile py_isspace s" py_isspace, OF h])
  then show ?thesis
    by (simp add: strip_def)
qed

subsection \<open>normalize\<close>

lemma sort_key_fst_map_idem:
  assumes "\<And>x. x \<in> set xs \<Longrightarrow> f x = x"
  shows "sort_key k (map f (sort_key k xs)) = sort_key k xs"
proof -
  have "map f (sort_key k xs) = sort_key k xs"
    by (rule map_idI) (simp add: assms)
  then show ?thesis
    by (simp add: sort_key_id_if_sorted[OF sorted_sort_key])
qed

lemma normalize_value_idem: "normalize_value L (normalize_value L v) = normalize_value L v"
proof (induction v)
  case (PDict kvs)
  let ?f = "\<lambda>(key, v). (key, normalize_value L v)"
  have id: "?f x = x" if "x \<in> set (map ?f kvs)" for x
  proof -
    from that obtain k v where kv: "(k, v) \<in> set kvs" and x: "x = (k, normalize_value L v)"
      by auto
    from kv have "normalize_value L (normalize_value L v) = normalize_value L v"
      by (intro PDict.IH[of "(k, v)"]) auto
    with x show ?thesis by simp
  qed
  have "sort_key fst (map ?f (sort_key fst (map ?f kvs))) = sort_key fst (map ?f kvs)"
    by (rule sort_key_fst_map_idem) (fact id)
  then show ?case by simp
next
  case (PSet xs)
  have "map (normalize_value L) (sort_key (json_sort_key L) (map (normalize_value L) xs)) =
        sort_key (json_sort_key L) (map (normalize_value L) xs)"
    by (rule map_idI) (use PSet.IH in auto)
  then show ?case by simp
next
  case (PList xs)
  then show ?case by (simp add: map_idI)
next
  case (PTuple xs)
  then show ?case by (simp add: map_idI)
qed simp_all

lemma normalize_payload_eq:
  "normalize_value L (PDict p) = PDict (normalize_payload L p)"
  by (simp add: normalize_payload_def)

lemma normalize_payload_idem:
  "normalize_payload L (normalize_payload L p) = normalize_payload L p"
  using normalize_value_idem[of L "PDict p"]
  by (simp only: normalize_payload_eq pyval.inject)

lemma map_of_filter:
  "map_of xs k = (case filter (\<lambda>x. fst x = k) xs of [] \<Rightarrow> None | x # _ \<Rightarrow> Some (snd x))"
  by (induction xs) auto

lemma map_of_sort_key_fst: "map_of (sort_key fst xs) k = map_of xs k"
  by (simp add: map_of_filter sort_key_stable)

lemma map_of_map_snd:
  "map_of (map (\<lambda>(key, v). (key, f v)) xs) k = map_option f (map_of xs k)"
  by (induction xs) auto

lemma payload_get_normalize:
  "payload_get (normalize_payload L p) field =
     (case map_of p field of None \<Rightarrow> PNone | Some v \<Rightarrow> normalize_value L v)"
  by (simp add: payload_get_def normalize_payload_def map_of_sort_key_fst map_of_map_snd
           split: option.splits)

lemma is_missing_required_normalize:
  "is_missing_required (normalize_value L v) = is_missing_required v"
proof (cases v)
  case (PStr s)
  have "(strip (strip s) = []) = (strip s = [])" by simp
  with PStr show ?thesis by simp
qed simp_all

lemma missing_normalize:
  "is_missing_required (payload_get (normalize_payload L p) field) =
   is_missing_required (payload_get p field)"
  by (cases "map_of p field")
     (simp_all add: payload_get_normalize is_missing_required_normalize, simp_all add: payload_get_def)

lemma make_key_normalize: "make_key L ns (normalize_payload L p) = make_key L ns p"
  by (simp add: make_key_def missing_normalize normalize_payload_idem Let_def)

subsection \<open>reordering\<close>

lemma sort_key_perm_distinct:
  assumes "mset xs = mset ys" "inj_on k (set xs)"
  shows "sort_key k xs = sort_key k ys"
proof (rule sort_key_inj_key_eq[OF _ assms(2)])
  show "mset xs = mset (sort_key k ys)" using assms(1) by simp
  show "sorted (map k (sort_key k ys))" by (rule sorted_sort_key)
qed

lemma list_all2_map_eq:
  "list_all2 (\<lambda>a b. f a = f b) xs ys \<Longrightarrow> map f xs = map f ys"
  by (induction rule: list_all2_induct) auto

lemma reordered_normalize:
  "reordered v v' \<Longrightarrow> wf_val v \<Longrightarrow> set_keys_inj L v \<Longrightarrow>
   normalize_value L v = normalize_value L v'"
proof (induction rule: reordered.induct)
  case (ro_refl v)
  show ?case by simp
next
  case (ro_list xs ys)
  have "list_all2 (\<lambda>a b. normalize_value L a = normalize_value L b) xs ys"
    using ro_list by (auto simp: list_all2_conv_all_nth list_all_length)
  then show ?case by (simp add: list_all2_map_eq)
next
  case (ro_tuple xs ys)
  have "list_all2 (\<lambda>a b. normalize_value L a = normalize_value L b) xs ys"
    using ro_tuple by (auto simp: list_all2_conv_all_nth list_all_length)
  then show ?case by (simp add: list_all2_map_eq)
next
  case (ro_dict kvs kvs1 kvs2)
  let ?f = "\<lambda>(key, v). (key, normalize_value L v)"
  have "list_all2 (\<lambda>a b. ?f a = ?f b) kvs kvs1"
    using ro_dict(1,3,4)
    by (auto simp: list_all2_conv_all_nth list_all_length split: prod.splits)
  then have e: "map ?f kvs = map ?f kvs1" by (rule list_all2_map_eq)
  have fk: "map fst (map ?f kvs) = map fst kvs"
    by (induction kvs) auto
  have "distinct (map fst (map ?f kvs))"
    using ro_dict(3) by (simp only: fk) simp
  then have inj: "inj_on fst (set (map ?f kvs1))"
    unfolding e[symmetric] by (rule distinct_map[THEN iffD1, THEN conjunct2])
  have m: "mset (map ?f kvs1) = mset (map ?f kvs2)"
    using ro_dict(2) by (metis mset_map)
  have "sort_key fst (map ?f kvs1) = sort_key fst (map ?f kvs2)"
    by (rule sort_key_perm_distinct[OF m inj])
  then show ?case by (simp add: e)
next
  case (ro_set xs xs1 xs2)
  let ?n = "normalize_value L"
  have "list_all2 (\<lambda>a b. ?n a = ?n b) xs xs1"
    using ro_set(1,3,4) by (auto simp: list_all2_conv_all_nth list_all_length)
  then have e: "map ?n xs = map ?n xs1" by (rule list_all2_map_eq)
  have "inj_on (json_sort_key L) (set (map ?n xs))"
    using ro_set(4) by (auto simp: inj_on_def list_all_iff)
  then have inj: "inj_on (json_sort_key L) (set (map ?n xs1))"
    by (simp only: e)
  have m: "mset (map ?n xs1) = mset (map ?n xs2)"
    using ro_set(2) by (metis mset_map)
  have "sort_key (json_sort_key L) (map ?n xs1) = sort_key (json_sort_key L) (map ?n xs2)"
    by (rule sort_key_perm_distinct[OF m inj])
  then show ?case by (simp add: e)
qed

text \<open>
  Claim C5. The cache key of a payload is the key of its canonical form
  (\<open>_normalize_payload\<close>), for every namespace; and two payloads equal up to a
  permutation of mapping entries and an ordering of set elements, at any depth, have the
  same key. Dictionaries have no repeated key, and the JSON text used by
  \<open>_normalize_value\<close> as sort key tells the normalized elements of a set apart.
\<close>

theorem make_key_invariant_under_reordering:
  "make_key L ns (normalize_payload L p) = make_key L ns p \<and>
   (reordered (PDict p) (PDict p') \<and> wf_val (PDict p) \<and> set_keys_inj L (PDict p) \<longrightarrow>
      make_key L ns p' = make_key L ns p)"
proof -
  have "make_key L ns p' = make_key L ns p"
    if "reordered (PDict p) (PDict p')" "wf_val (PDict p)" "set_keys_inj L (PDict p)"
  proof -
    from reordered_normalize[OF that]
    have "normalize_payload L p = normalize_payload L p'"
      by (simp only: normalize_payload_eq pyval.inject)
    then show ?thesis
      using make_key_normalize[of L ns p] make_key_normalize[of L ns p'] by simp
  qed
  with make_key_normalize show ?thesis by blast
qed


lemma ex_reordered: "reordered (PDict ex_payload) (PDict ex_payload_reordered)"
proof -
  have t: "reordered (PSet [PStr ''b'', PStr ''a'']) (PSet [PStr ''a'', PStr ''b''])"
    by (rule ro_set[where ?xs1.0 = "[PStr ''b'', PStr ''a'']"]) (simp_all add: ro_refl)
  have c: "reordered (PDict [(''y'', PInt 2), (''x'', PInt 1)]) (PDict [(''x'', PInt 1), (''y'', PInt 2)])"
    by (rule ro_dict[where ?kvs1.0 = "[(''y'', PInt 2), (''x'', PInt 1)]"]) (simp_all add: ro_refl)
  show ?thesis
    unfolding ex_payload_def ex_payload_reordered_def
    by (rule ro_dict[where ?kvs1.0 = "[(''name_raw'', PStr '' soup ''), (''menu_catalog_version'', PStr ''v1''),
      (''tags'', PSet [PStr ''a'', PStr ''b'']),
      (''ctx'', PDict [(''x'', PInt 1), (''y'', PInt 2)])]"])
       (simp_all add: ro_refl t c)
qed

text \<open>The two sample payloads differ in the order of the top-level keys, of the keys of
  \<open>ctx\<close> and of the elements of the set \<open>tags\<close>.\<close>

theorem make_key_invariant_under_reordering_witness:
  "make_key ex_libs ITEM_MAPPING_CACHE ex_payload_reordered =
     make_key ex_libs ITEM_MAPPING_CACHE ex_payload \<and>
   make_key ex_libs ITEM_MAPPING_CACHE (normalize_payload ex_libs ex_payload) =
     make_key ex_libs ITEM_MAPPING_CACHE ex_payload \<and>
   (case make_key ex_libs ITEM_MAPPING_CACHE ex_payload of Inl e \<Rightarrow> False | Inr key \<Rightarrow> True)"
proof -
  have w: "wf_val (PDict ex_payload)"
    by code_simp
  have i: "set_keys_inj ex_libs (PDict ex_payload)"
    by code_simp
  have r: "(case make_key ex_libs ITEM_MAPPING_CACHE ex_payload of Inl e \<Rightarrow> False | Inr key \<Rightarrow> True)"
    by code_simp
  from make_key_invariant_under_reordering
         [of ex_libs ITEM_MAPPING_CACHE ex_payload ex_payload_reordered]
       ex_reordered w i r
  show ?thesis by blast
qed

subsection \<open>get after set\<close>

lemma backend_get_set [simp]: "backend_get (backend_set st ns key entry) ns key = Some entry"
  by (simp add: backend_get_def backend_set_def Let_def)

lemma backend_get_delete [simp]: "backend_get (backend_delete st ns key) ns key = None"
  by (auto simp: backend_get_def backend_delete_def split: option.splits)

text \<open>
  Claim C6. After \<open>set\<close> at time \<open>t0\<close>, a \<open>get\<close> in the same namespace with a payload
  of the same key returns the stored entry at every time strictly before the entry's
  \<open>expires_at\<close>; at or after \<open>expires_at\<close> it returns nothing and the backend no longer
  holds the entry; \<open>expires_at\<close> is \<open>t0\<close> plus the namespace TTL when that is positive and
  absent otherwise, and with a TTL of zero or less the entry is returned at every time.
\<close>

theorem cache_get_after_set:
  assumes s: "cache_set L c t0 ns p v conf meta = Inr (entry, c1)"
    and k: "make_key L ns p' = make_key L ns p"
  shows "expires_at entry =
           (case namespace_ttls c ns of
              Some ttl \<Rightarrow> if ttl > 0 then Some (t0 + of_int ttl) else None
            | None \<Rightarrow> None) \<and>
         ((\<forall>e. expires_at entry = Some e \<longrightarrow> t < e) \<longrightarrow>
            cache_get L c1 t ns p' = Inr (Some entry, c1)) \<and>
         ((\<exists>e. expires_at entry = Some e \<and> e \<le> t) \<longrightarrow>
            (\<exists>key c2. make_key L ns p' = Inr key \<and> cache_get L c1 t ns p' = Inr (None, c2) \<and>
                       backend_get (backend c2) ns key = None)) \<and>
         ((\<exists>ttl. namespace_ttls c ns = Some ttl \<and> ttl \<le> 0) \<longrightarrow>
            expires_at entry = None \<and> (\<forall>t'. cache_get L c1 t' ns p' = Inr (Some entry, c1)))"
proof -
  from s obtain key where key: "make_key L ns p = Inr key"
    by (cases "make_key L ns p") (auto simp: cache_set_def)
  let ?exp = "case namespace_ttls c ns of
              Some ttl \<Rightarrow> if ttl > 0 then Some (t0 + of_int ttl) else None
            | None \<Rightarrow> None"
  from s key have entry: "entry = \<lparr>ce_value = v, ce_confidence = max 0 (min 1 conf), ce_meta = meta,
                       created_at = t0, expires_at = ?exp\<rparr>"
    and c1: "c1 = c\<lparr>backend := backend_set (backend c) ns key entry\<rparr>"
    by (auto simp: cache_set_def Let_def)
  have 1: "expires_at entry = ?exp" by (simp add: entry)
  have g: "backend_get (backend c1) ns key = Some entry" by (simp add: c1)
  have 2: "cache_get L c1 t' ns p' = Inr (Some entry, c1)"
    if "\<forall>e. expires_at entry = Some e \<longrightarrow> t' < e" for t'
    using that g by (auto simp: cache_get_def k key is_expired_def split: option.splits)
  have 3: "\<exists>key c2. make_key L ns p' = Inr key \<and> cache_get L c1 t ns p' = Inr (None, c2) \<and>
                       backend_get (backend c2) ns key = None"
    if "\<exists>e. expires_at entry = Some e \<and> e \<le> t"
    using that g by (auto simp: cache_get_def k key is_expired_def split: option.splits)
  have 4: "expires_at entry = None \<and> (\<forall>t'. cache_get L c1 t' ns p' = Inr (Some entry, c1))"
    if "\<exists>ttl. namespace_ttls c ns = Some ttl \<and> ttl \<le> 0"
  proof -
    from that 1 have n: "expires_at entry = None" by auto
    then show ?thesis using 2 by simp
  qed
  from 1 2 3 4 show ?thesis by blast
qed


text \<open>The scenario of the specification: a TTL of 5 seconds, a \<open>set\<close> at time 100; a \<open>get\<close>
  at 104.99 returns the entry, a \<open>get\<close> at 105 returns nothing.\<close>

theorem cache_get_after_set_witness:
  "\<exists>entry c1.
     cache_set ex_libs ex_cache 100 ITEM_MAPPING_CACHE ex_payload (PStr ''I007'') (9 / 10) [] =
       Inr (entry, c1) \<and>
     expires_at entry = Some 105 \<and>
     cache_get ex_libs c1 (10499 / 100) ITEM_MAPPING_CACHE ex_payload_reordered = Inr (Some entry, c1) \<and>
     (\<exists>c2. cache_get ex_libs c1 105 ITEM_MAPPING_CACHE ex_payload_reordered = Inr (None, c2))"
proof -
  have "case make_key ex_libs ITEM_MAPPING_CACHE ex_payload of Inl e \<Rightarrow> False | Inr key \<Rightarrow> True"
    by code_simp
  then obtain key where key: "make_key ex_libs ITEM_MAPPING_CACHE ex_payload = Inr key"
    by (cases "make_key ex_libs ITEM_MAPPING_CACHE ex_payload") auto
  have k: "make_key ex_libs ITEM_MAPPING_CACHE ex_payload_reordered =
           make_key ex_libs ITEM_MAPPING_CACHE ex_payload"
    by code_simp
  have ttl: "namespace_ttls ex_cache ITEM_MAPPING_CACHE = Some 5"
    by (simp add: ex_cache_def)
  obtain entry c1 where
    s: "cache_set ex_libs ex_cache 100 ITEM_MAPPING_CACHE ex_payload (PStr ''I007'') (9 / 10) [] =
          Inr (entry, c1)"
    by (simp add: cache_set_def key Let_def)
  note th = cache_get_after_set[OF s k]
  have e: "expires_at entry = Some 105"
    using th[of 0] ttl by simp
  have g1: "cache_get ex_libs c1 (10499 / 100) ITEM_MAPPING_CACHE ex_payload_reordered =
              Inr (Some entry, c1)"
    using th[of "10499 / 100"] e by simp
  have g2: "\<exists>c2. cache_get ex_libs c1 105 ITEM_MAPPING_CACHE ex_payload_reordered = Inr (None, c2)"
    using th[of 105] e by auto
  from s e g1 g2 show ?thesis by blast
qed

section \<open>Properties of the audit log\<close>

lemma map_of_dict_set: "map_of (dict_set d key v) = (map_of d)(key \<mapsto> v)"
  by (simp add: dict_set_def update_conv')

lemma keys_dict_set:
  "map_of d key \<noteq> None \<Longrightarrow> map fst (dict_set d key v) = map fst d"
  by (simp add: dict_set_def update_keys map_of_eq_None_iff)

lemma setdefault_new: "map_of (setdefault d key v) key \<noteq> None"
  by (simp add: setdefault_def update_conv')

lemma setdefault_keep: "map_of d key \<noteq> None \<Longrightarrow> map_of (setdefault d key' v) key \<noteq> None"
  by (simp add: setdefault_def update_conv')

lemma to_event_payload_has_llm_fields:
  assumes "to_event_payload now event = Inr payload"
  shows "map_of payload ''llm_request'' \<noteq> None \<and> map_of payload ''llm_response'' \<noteq> None"
proof -
  let ?p = "foldl (\<lambda>d (key, v). setdefault d key v) event
                [(''timestamp'', PStr now), (''raw_text'', PNone), (''parse_result'', PNone),
                 (''candidates'', PNone), (''llm_request'', PNone), (''llm_response'', PNone),
                 (''fallback_reason'', PNone), (''merge_result'', PNone), (''final_output'', PNone),
                 (''human_correction'', PNone), (''metadata'', PDict []),
                 (''needs_review'', PBool False)]"
  have a: "map_of ?p ''llm_request'' \<noteq> None"
    unfolding foldl.simps prod.case by (intro setdefault_new setdefault_keep)
  have b: "map_of ?p ''llm_response'' \<noteq> None"
    unfolding foldl.simps prod.case by (intro setdefault_new setdefault_keep)
  from assms obtain hc where "payload = dict_set ?p ''human_correction'' hc"
    by (auto simp: to_event_payload_def Let_def split: if_splits sum.splits)
  with a b show ?thesis
    by (simp add: map_of_dict_set)
qed

lemma mask_llm_fields_lookup:
  "map_of (mask_llm_fields payload) field =
     (if field = ''llm_response'' then Some (mask_value (dict_get payload ''llm_response''))
      else if field = ''llm_request'' then Some (mask_value (dict_get payload ''llm_request''))
      else map_of payload field)"
  by (simp add: mask_llm_fields_def Let_def map_of_dict_set dict_get_def)

lemma mask_llm_fields_keys:
  assumes "map_of payload ''llm_request'' \<noteq> None" "map_of payload ''llm_response'' \<noteq> None"
  shows "map fst (mask_llm_fields payload) = map fst payload"
proof -
  let ?m1 = "dict_set payload ''llm_request'' (mask_value (dict_get payload ''llm_request''))"
  have 1: "map fst ?m1 = map fst payload"
    by (rule keys_dict_set[OF assms(1)])
  have "map_of ?m1 ''llm_response'' \<noteq> None"
    using assms(2) by (simp add: map_of_dict_set)
  then have "map fst (dict_set ?m1 ''llm_response'' (mask_value (dict_get ?m1 ''llm_response''))) = map fst ?m1"
    by (rule keys_dict_set)
  with 1 show ?thesis
    by (simp add: mask_llm_fields_def Let_def)
qed

text \<open>
  Claim C9. When \<open>write_event\<close> runs with \<open>mask_sensitive\<close> true and persists a payload,
  that payload has the keys of the event payload built by \<open>_to_event_payload\<close>, in the
  same order; its \<open>llm_request\<close> and \<open>llm_response\<close> are the \<open>_mask_value\<close> of the
  original ones; and every other field has the value it had before the masking step.
\<close>

theorem masking_only_in_llm_subtrees:
  assumes "write_event now event True log_lines = Inr (persisted, log_lines')"
  shows "\<exists>payload. to_event_payload now event = Inr payload \<and>
           log_lines' = log_lines @ [persisted] \<and>
           map fst persisted = map fst payload \<and>
           map_of persisted ''llm_request'' = Some (mask_value (dict_get payload ''llm_request'')) \<and>
           map_of persisted ''llm_response'' = Some (mask_value (dict_get payload ''llm_response'')) \<and>
           (\<forall>field. field \<noteq> ''llm_request'' \<and> field \<noteq> ''llm_response'' \<longrightarrow>
                map_of persisted field = map_of payload field)"
proof -
  from assms obtain payload where
    p: "to_event_payload now event = Inr payload" and
    m: "persisted = mask_llm_fields payload" and
    l: "log_lines' = log_lines @ [persisted]"
    by (auto simp: write_event_def Let_def split: sum.splits if_splits)
  note has = to_event_payload_has_llm_fields[OF p]
  have k: "map fst persisted = map fst payload"
    unfolding m using has by (intro mask_llm_fields_keys) simp_all
  show ?thesis
    using p l k by (intro exI[of _ payload]) (simp add: m mask_llm_fields_lookup)
qed


text \<open>In the sample event the raw text looks like an e-mail address and stays as it is,
  while the key and the address inside \<open>llm_request\<close> are masked.\<close>

theorem masking_only_in_llm_subtrees_witness:
  "\<exists>persisted log_lines'.
     write_event ex_now ex_event True [] = Inr (persisted, log_lines') \<and>
     map_of persisted ''raw_text'' = Some (PStr ''staff@example.com'') \<and>
     map_of persisted ''llm_request'' =
       Some (PDict [(''prompt'', PStr ''normalize this order''), (''api_key'', PStr ''***''),
                    (''operator_email'', PStr ''***'')])"
proof -
  define P where "P = projr (to_event_payload ex_now ex_event)"
  define W where "W = projr (write_event ex_now ex_event True [])"
  have tp: "to_event_payload ex_now ex_event = Inr P"
    unfolding P_def by code_simp
  have rt: "map_of P ''raw_text'' = Some (PStr ''staff@example.com'')"
    unfolding P_def by code_simp
  have rq: "mask_value (dict_get P ''llm_request'') =
              PDict [(''prompt'', PStr ''normalize this order''), (''api_key'', PStr ''***''),
                     (''operator_email'', PStr ''***'')]"
    unfolding P_def by code_simp
  have w: "write_event ex_now ex_event True [] = Inr (fst W, snd W)"
    unfolding W_def by code_simp
  from masking_only_in_llm_subtrees[OF w] tp
  have "map_of (fst W) ''llm_request'' = Some (mask_value (dict_get P ''llm_request''))"
    and "map_of (fst W) ''raw_text'' = map_of P ''raw_text''"
    by auto
  with w rt rq show ?thesis
    by (intro exI[of _ "fst W"] exI[of _ "snd W"]) simp
qed

section \<open>Properties of the candidate generator\<close>














end
